theory Spec2Isabelle
  imports Main "HOL-Library.Word" "HOL-Library.Signed_Division"
begin

unbundle bit_operations_syntax

section \<open>Data model\<close>

text \<open>
  The program multiplies square matrices of C \<^verbatim>\<open>int\<close>. A matrix (\<^verbatim>\<open>int**\<close>) is a list of
  rows. Matrix entries are 32-bit machine integers, so sums and products of entries wrap
  around. The scalar parameters of the program (matrix side, rank, number of processes,
  level, product index) are C \<^verbatim>\<open>int\<close> as well. They are modelled as integers, and the
  two places where the arithmetic of the program can leave the range of \<^verbatim>\<open>int\<close> are
  written out: the first child \<^verbatim>\<open>rank * 7 + 1\<close> of \<^verbatim>\<open>shouldDistribute\<close> wraps around
  (\<open>int32\<close>), and a buffer of \<^verbatim>\<open>n * n\<close> entries does not exist when \<open>n * n\<close> exceeds
  \<open>INT_MAX\<close>: the allocation, the running index and the message count are computed in
  \<^verbatim>\<open>int\<close>, so the program has no defined result there. A computation without a defined
  result is the value \<open>None\<close>. The other scalar expressions (\<^verbatim>\<open>n / 2\<close>, \<^verbatim>\<open>level + 1\<close>, the
  child rank \<^verbatim>\<open>rank * 7 + (i + 1)\<close>) are written on the integers: they are exact for
  every rank from 0 to 306783377 and every level below \<open>INT_MAX\<close>.
\<close>

type_synonym cint = "32 word"
type_synonym matrix = "cint list list"

definition INT_MAX :: int where
  "INT_MAX = 2147483647"

text \<open>The value of a C \<^verbatim>\<open>int\<close> expression whose exact value is \<open>x\<close>, with wrap-around.\<close>

definition int32 :: "int \<Rightarrow> int" where
  "int32 x = (x + 2147483648) mod 4294967296 - 2147483648"

text \<open>A matrix of side \<open>n\<close>: \<open>n\<close> rows of \<open>n\<close> entries each.\<close>

definition mat :: "int \<Rightarrow> matrix \<Rightarrow> bool" where
  "mat n M = (length M = nat n \<and> list_all (\<lambda>row. length row = nat n) M)"

section \<open>Matrix utilities\<close>

text \<open>\<^verbatim>\<open>initializeMatrix(n)\<close>: \<open>n\<close> rows obtained from \<^verbatim>\<open>calloc\<close>, all entries zero.\<close>

definition initializeMatrix :: "int \<Rightarrow> matrix" where
  "initializeMatrix n = replicate (nat n) (replicate (nat n) 0)"

text \<open>
  \<^verbatim>\<open>addMatrices\<close> and \<^verbatim>\<open>subtractMatrices\<close> allocate the result and fill every cell
  \<open>(i, j)\<close> with \<open>i, j < n\<close>.
\<close>

definition addMatrices :: "matrix \<Rightarrow> matrix \<Rightarrow> int \<Rightarrow> matrix" where
  "addMatrices A B n =
     map (\<lambda>i. map (\<lambda>j. A ! i ! j + B ! i ! j) [0..<nat n]) [0..<nat n]"

definition subtractMatrices :: "matrix \<Rightarrow> matrix \<Rightarrow> int \<Rightarrow> matrix" where
  "subtractMatrices A B n =
     map (\<lambda>i. map (\<lambda>j. A ! i ! j - B ! i ! j) [0..<nat n]) [0..<nat n]"

text \<open>
  \<^verbatim>\<open>splitMatrix(parent, A11, A12, A21, A22, k)\<close> fills the four freshly allocated
  \<open>k \<times> k\<close> quadrants; the model returns them as a tuple.
\<close>

definition splitMatrix :: "matrix \<Rightarrow> int \<Rightarrow> matrix \<times> matrix \<times> matrix \<times> matrix" where
  "splitMatrix parent k =
     (map (\<lambda>i. map (\<lambda>j. parent ! i ! j) [0..<nat k]) [0..<nat k],
      map (\<lambda>i. map (\<lambda>j. parent ! i ! (j + nat k)) [0..<nat k]) [0..<nat k],
      map (\<lambda>i. map (\<lambda>j. parent ! (i + nat k) ! j) [0..<nat k]) [0..<nat k],
      map (\<lambda>i. map (\<lambda>j. parent ! (i + nat k) ! (j + nat k)) [0..<nat k]) [0..<nat k])"

text \<open>
  \<^verbatim>\<open>combineBlocks(C, C11, C12, C21, C22, k)\<close> overwrites the cells of \<open>C\<close> with row and
  column below \<open>2 * k\<close>; every other cell of \<open>C\<close> keeps its value.
\<close>

definition combineBlocks ::
  "matrix \<Rightarrow> matrix \<Rightarrow> matrix \<Rightarrow> matrix \<Rightarrow> matrix \<Rightarrow> int \<Rightarrow> matrix" where
  "combineBlocks C C11 C12 C21 C22 k =
     map (\<lambda>i. map (\<lambda>j.
            if i < nat k \<and> j < nat k then C11 ! i ! j
            else if i < nat k \<and> j < 2 * nat k then C12 ! i ! (j - nat k)
            else if i < 2 * nat k \<and> j < nat k then C21 ! (i - nat k) ! j
            else if i < 2 * nat k \<and> j < 2 * nat k then C22 ! (i - nat k) ! (j - nat k)
            else C ! i ! j) [0..<length (C ! i)]) [0..<length C]"

text \<open>
  \<^verbatim>\<open>flattenMatrix\<close>: the row-major buffer of \<open>n * n\<close> entries. The buffer is allocated with
  \<^verbatim>\<open>malloc(n * n * sizeof(int))\<close>, where \<^verbatim>\<open>n * n\<close> is an \<^verbatim>\<open>int\<close> product, and it is filled
  through an \<^verbatim>\<open>int\<close> index that runs up to \<open>n * n\<close>. When \<open>n * n\<close> exceeds \<open>INT_MAX\<close> (from
  \<open>n = 46341\<close> on; the first power of two is 65536, where the product wraps to 0) the
  buffer is smaller than what is written into it, and there is no result.
\<close>

definition flattenMatrix :: "matrix \<Rightarrow> int \<Rightarrow> cint list option" where
  "flattenMatrix M n =
     (if INT_MAX < n * n then None
      else Some (concat (map (\<lambda>i. map (\<lambda>j. M ! i ! j) [0..<nat n]) [0..<nat n])))"

text \<open>
  \<^verbatim>\<open>unflattenMatrix\<close>: cell \<open>(i, j)\<close> is read from position \<open>i * n + j\<close> of the buffer, through
  an \<^verbatim>\<open>int\<close> index that runs up to \<open>n * n\<close> as well.
\<close>

definition unflattenMatrix :: "cint list \<Rightarrow> int \<Rightarrow> matrix option" where
  "unflattenMatrix flat n =
     (if INT_MAX < n * n then None
      else Some (map (\<lambda>i. map (\<lambda>j. flat ! (i * nat n + j)) [0..<nat n]) [0..<nat n]))"

text \<open>
  \<^verbatim>\<open>copyMatrix(source, dest, n)\<close> overwrites the cells of \<open>dest\<close> with row and column below
  \<open>n\<close>; the model returns the destination.
\<close>

definition copyMatrix :: "matrix \<Rightarrow> matrix \<Rightarrow> int \<Rightarrow> matrix" where
  "copyMatrix source dest n =
     map (\<lambda>i. map (\<lambda>j. if i < nat n \<and> j < nat n then source ! i ! j else dest ! i ! j)
            [0..<length (dest ! i)]) [0..<length dest]"

text \<open>\<^verbatim>\<open>isPowerOfTwo\<close>: \<^verbatim>\<open>n > 0 && (n & (n - 1)) == 0\<close>.\<close>

definition isPowerOfTwo :: "int \<Rightarrow> bool" where
  "isPowerOfTwo n = (n > 0 \<and> n AND (n - 1) = 0)"

text \<open>
  \<^verbatim>\<open>standardMultiply\<close>: the cubic product. Cell \<open>(i, j)\<close> starts at zero and accumulates
  \<open>A[i][k] * B[k][j]\<close> for \<open>k = 0, \<dots>, n - 1\<close> in this order.
\<close>

definition standardMultiply :: "matrix \<Rightarrow> matrix \<Rightarrow> int \<Rightarrow> matrix" where
  "standardMultiply A B n =
     map (\<lambda>i. map (\<lambda>j. foldl (\<lambda>acc k. acc + A ! i ! k * B ! k ! j) 0 [0..<nat n])
       [0..<nat n]) [0..<nat n]"

text \<open>
  The recombination shared by the sequential and the distributed algorithm: from the
  seven products to the result of side \<open>n\<close>.
  \<^verbatim>\<open>C11 = P[0] + P[3] - P[4] + P[6]; C12 = P[2] + P[4];
  C21 = P[1] + P[3]; C22 = P[0] - P[1] + P[2] + P[5]\<close>.
\<close>

definition recombine :: "matrix list \<Rightarrow> int \<Rightarrow> int \<Rightarrow> matrix" where
  "recombine P n k =
     (let temp1 = addMatrices (P ! 0) (P ! 3) k;
          temp2 = subtractMatrices temp1 (P ! 4) k;
          C11 = addMatrices temp2 (P ! 6) k;
          C12 = addMatrices (P ! 2) (P ! 4) k;
          C21 = addMatrices (P ! 1) (P ! 3) k;
          temp1' = subtractMatrices (P ! 0) (P ! 1) k;
          temp2' = addMatrices temp1' (P ! 2) k;
          C22 = addMatrices temp2' (P ! 5) k
      in combineBlocks (initializeMatrix n) C11 C12 C21 C22 k)"

section \<open>Sequential Strassen multiplication\<close>

text \<open>
  \<^verbatim>\<open>strassenMultiply\<close> of \<^verbatim>\<open>matrix_utils.c\<close>: the scalar product for \<open>n = 1\<close>, the cubic
  product up to side 32, and one Strassen step with seven recursive calls above.
\<close>

function strassenMultiply :: "matrix \<Rightarrow> matrix \<Rightarrow> int \<Rightarrow> matrix" where
  "strassenMultiply A B n =
     (if n = 1 then [[A ! 0 ! 0 * B ! 0 ! 0]]
      else if n \<le> 32 then standardMultiply A B n
      else
        (case splitMatrix A (n sdiv 2) of (A11, A12, A21, A22) \<Rightarrow>
         case splitMatrix B (n sdiv 2) of (B11, B12, B21, B22) \<Rightarrow>
           recombine
             [strassenMultiply (addMatrices A11 A22 (n sdiv 2)) (addMatrices B11 B22 (n sdiv 2)) (n sdiv 2),
              strassenMultiply (addMatrices A21 A22 (n sdiv 2)) B11 (n sdiv 2),
              strassenMultiply A11 (subtractMatrices B12 B22 (n sdiv 2)) (n sdiv 2),
              strassenMultiply A22 (subtractMatrices B21 B11 (n sdiv 2)) (n sdiv 2),
              strassenMultiply (addMatrices A11 A12 (n sdiv 2)) B22 (n sdiv 2),
              strassenMultiply (subtractMatrices A21 A11 (n sdiv 2)) (addMatrices B11 B12 (n sdiv 2)) (n sdiv 2),
              strassenMultiply (subtractMatrices A12 A22 (n sdiv 2)) (addMatrices B21 B22 (n sdiv 2)) (n sdiv 2)]
             n (n sdiv 2)))"
  by pat_completeness auto
termination
  by (relation "measure (\<lambda>(A, B, n). nat n)")
    (auto simp: signed_divide_int_def sgn_if)

section \<open>Distributed kernel\<close>

text \<open>The two constants of \<^verbatim>\<open>strassen_mpi.h\<close>.\<close>

definition MAX_TREE_HEIGHT :: int where
  "MAX_TREE_HEIGHT = 5"

definition MIN_SIZE_THRESHOLD :: int where
  "MIN_SIZE_THRESHOLD = 64"

text \<open>
  \<^verbatim>\<open>shouldDistribute\<close>: three early returns. The first child
  \<^verbatim>\<open>int first_child = rank * 7 + 1\<close> is computed in \<^verbatim>\<open>int\<close> and wraps around.
\<close>

definition shouldDistribute :: "int \<Rightarrow> int \<Rightarrow> int \<Rightarrow> int \<Rightarrow> bool" where
  "shouldDistribute n level num_procs rank =
     (if n \<le> MIN_SIZE_THRESHOLD then False
      else if level \<ge> MAX_TREE_HEIGHT then False
      else if int32 (rank * 7 + 1) \<ge> num_procs then False
      else True)"

text \<open>
  The same function written on 32-bit machine words, with signed comparisons. It is
  \<open>shouldDistribute\<close> on the values of the words (lemma \<open>shouldDistribute32_eq\<close> below).
\<close>

definition shouldDistribute32 :: "cint \<Rightarrow> cint \<Rightarrow> cint \<Rightarrow> cint \<Rightarrow> bool" where
  "shouldDistribute32 n level num_procs rank =
     (if n \<le>s 64 then False
      else if 5 \<le>s level then False
      else if num_procs \<le>s rank * 7 + 1 then False
      else True)"

text \<open>
  Every message has tag \<^verbatim>\<open>TAG_WORK\<close> and carries either a single \<^verbatim>\<open>int\<close> (the size, the
  product index, the level) or a flattened matrix. The observable behaviour of a run is a
  list of events: \<open>Send p q m\<close> is an \<^verbatim>\<open>MPI_Send\<close> of \<open>m\<close> by process \<open>p\<close> to process
  \<open>q\<close>, \<open>Recv p q m\<close> is an \<^verbatim>\<open>MPI_Recv\<close> by process \<open>p\<close> that delivers the message \<open>m\<close>
  sent by \<open>q\<close>, and \<open>Invoke p n level\<close> records that process \<open>p\<close> entered
  \<^verbatim>\<open>strassenMultiplyMPI\<close> with side \<open>n\<close> and the given level.
\<close>

datatype payload = Scalar int | Buffer "cint list"

datatype event = Send int int payload | Recv int int payload | Invoke int int int

text \<open>The loop \<^verbatim>\<open>for (int i = 0; i < 7; i++)\<close> over the seven products.\<close>

definition slots :: "int list" where
  "slots = [0, 1, 2, 3, 4, 5, 6]"

text \<open>Child \<open>i\<close> of a process: \<^verbatim>\<open>int child_rank = rank * 7 + (i + 1)\<close>.\<close>

definition child_rank :: "int \<Rightarrow> int \<Rightarrow> int" where
  "child_rank rank i = rank * 7 + (i + 1)"

text \<open>The five sends of lines 46 to 50 that hand product \<open>i\<close> to a child.\<close>

definition sendTask :: "int \<Rightarrow> int \<Rightarrow> int \<Rightarrow> int \<Rightarrow> int \<Rightarrow> cint list \<Rightarrow> cint list \<Rightarrow> event list" where
  "sendTask rank child n i level flatA flatB =
     [Send rank child (Scalar n), Send rank child (Scalar i),
      Send rank child (Scalar level), Send rank child (Buffer flatA),
      Send rank child (Buffer flatB)]"

text \<open>
  The kernel \<^verbatim>\<open>strassenMultiplyMPI\<close>, the product computation
  \<^verbatim>\<open>computeStrassenProductMPI\<close>, and \<open>workerTask\<close>, the body of the dispatch loop of
  \<^verbatim>\<open>workerProcess\<close> for one task (the five receives, the computation and the reply). Each
  returns its result together with the events it causes, or \<open>None\<close> when a buffer that it
  needs does not exist. The \<^verbatim>\<open>switch\<close> of \<^verbatim>\<open>computeStrassenProductMPI\<close> has no default:
  for an index outside 0 to 6 both operands stay null pointers, which the model writes as
  empty matrices; the kernel itself only uses the indices 0 to 6.

  Message passing is modelled as a remote call: a process sends a task to a child only
  while that child waits in its dispatch loop, and the reply it receives from the child
  is what the child's loop body computes from the five messages of the task. The events
  of the child are placed before the receive of its reply. The first loop of the kernel
  flattens both matrices for every child and sends the task; the second loop receives
  the replies, and there the model calls the loop body of the child on the task that the
  first loop sent, that is on the two flattened matrices. The counts \<^verbatim>\<open>n * n\<close> and
  \<^verbatim>\<open>k * k\<close> of the sends and receives and the allocation of \<^verbatim>\<open>k * k\<close> entries for a reply
  are \<^verbatim>\<open>int\<close> products as well; they belong to buffers that the same call flattens or
  unflattens, and exist exactly when these do.
\<close>

function strassenMultiplyMPI ::
    "matrix \<Rightarrow> matrix \<Rightarrow> int \<Rightarrow> int \<Rightarrow> int \<Rightarrow> int \<Rightarrow> (matrix \<times> event list) option"
  and computeStrassenProductMPI ::
    "matrix \<Rightarrow> matrix \<Rightarrow> matrix \<Rightarrow> matrix \<Rightarrow> matrix \<Rightarrow> matrix \<Rightarrow> matrix \<Rightarrow> matrix \<Rightarrow>
     int \<Rightarrow> int \<Rightarrow> int \<Rightarrow> int \<Rightarrow> int \<Rightarrow> (matrix \<times> event list) option"
  and workerTask ::
    "int \<Rightarrow> int \<Rightarrow> int \<Rightarrow> int \<Rightarrow> int \<Rightarrow> int \<Rightarrow> cint list \<Rightarrow> cint list \<Rightarrow>
     (cint list \<times> event list) option"
where
  "strassenMultiplyMPI A B n rank num_procs level =
     (if n = 1 then Some ([[A ! 0 ! 0 * B ! 0 ! 0]], [Invoke rank n level])
      else if n \<le> MIN_SIZE_THRESHOLD then Some (standardMultiply A B n, [Invoke rank n level])
      else
        (case splitMatrix A (n sdiv 2) of (A11, A12, A21, A22) \<Rightarrow>
         case splitMatrix B (n sdiv 2) of (B11, B12, B21, B22) \<Rightarrow>
           if shouldDistribute n level num_procs rank
           then
             (case those (map (\<lambda>i.
                     if child_rank rank i < num_procs
                     then (case flattenMatrix A n of None \<Rightarrow> None | Some flatA \<Rightarrow>
                           case flattenMatrix B n of None \<Rightarrow> None | Some flatB \<Rightarrow>
                             Some (sendTask rank (child_rank rank i) n i level flatA flatB))
                     else Some []) slots) of
                None \<Rightarrow> None
              | Some sends \<Rightarrow>
             (case those (map (\<lambda>i.
                     if child_rank rank i < num_procs
                     then (case flattenMatrix A n of None \<Rightarrow> None | Some flatA \<Rightarrow>
                           case flattenMatrix B n of None \<Rightarrow> None | Some flatB \<Rightarrow>
                           case workerTask (child_rank rank i) num_procs rank n i level
                                  flatA flatB of
                             None \<Rightarrow> None
                           | Some (flatResult, tr) \<Rightarrow>
                           case unflattenMatrix flatResult (n sdiv 2) of
                             None \<Rightarrow> None
                           | Some Pi \<Rightarrow>
                               Some (Pi, tr @ [Recv rank (child_rank rank i) (Buffer flatResult)]))
                     else computeStrassenProductMPI A11 A12 A21 A22 B11 B12 B21 B22
                            (n sdiv 2) rank num_procs level i) slots) of
                None \<Rightarrow> None
              | Some P \<Rightarrow>
                  Some (recombine (map fst P) n (n sdiv 2),
                        Invoke rank n level # concat sends @ concat (map snd P))))
           else
             (case those (map (\<lambda>i.
                     computeStrassenProductMPI A11 A12 A21 A22 B11 B12 B21 B22
                       (n sdiv 2) rank num_procs level i) slots) of
                None \<Rightarrow> None
              | Some P \<Rightarrow>
                  Some (recombine (map fst P) n (n sdiv 2),
                        Invoke rank n level # concat (map snd P)))))"
| "computeStrassenProductMPI A11 A12 A21 A22 B11 B12 B21 B22 k rank num_procs level
       product_index =
     (case (if product_index = 0 then (addMatrices A11 A22 k, addMatrices B11 B22 k)
            else if product_index = 1 then (addMatrices A21 A22 k, copyMatrix B11 (initializeMatrix k) k)
            else if product_index = 2 then (copyMatrix A11 (initializeMatrix k) k, subtractMatrices B12 B22 k)
            else if product_index = 3 then (copyMatrix A22 (initializeMatrix k) k, subtractMatrices B21 B11 k)
            else if product_index = 4 then (addMatrices A11 A12 k, copyMatrix B22 (initializeMatrix k) k)
            else if product_index = 5 then (subtractMatrices A21 A11 k, addMatrices B11 B12 k)
            else if product_index = 6 then (subtractMatrices A12 A22 k, addMatrices B21 B22 k)
            else ([], [])) of
        (tempA, tempB) \<Rightarrow> strassenMultiplyMPI tempA tempB k rank num_procs (level + 1))"
| "workerTask rank num_procs parent_rank n product_index level flatA flatB =
     (if INT_MAX < n * n then None
      else
        (case unflattenMatrix flatA n of None \<Rightarrow> None | Some A \<Rightarrow>
         case unflattenMatrix flatB n of None \<Rightarrow> None | Some B \<Rightarrow>
         case splitMatrix A (n sdiv 2) of (A11, A12, A21, A22) \<Rightarrow>
         case splitMatrix B (n sdiv 2) of (B11, B12, B21, B22) \<Rightarrow>
         case computeStrassenProductMPI A11 A12 A21 A22 B11 B12 B21 B22
                (n sdiv 2) rank num_procs (level + 1) product_index of
           None \<Rightarrow> None
         | Some (result, tr) \<Rightarrow>
         case flattenMatrix result (n sdiv 2) of
           None \<Rightarrow> None
         | Some flatResult \<Rightarrow>
             Some (flatResult,
                   [Recv rank parent_rank (Scalar n), Recv rank parent_rank (Scalar product_index),
                    Recv rank parent_rank (Scalar level), Recv rank parent_rank (Buffer flatA),
                    Recv rank parent_rank (Buffer flatB)]
                   @ tr @ [Send rank parent_rank (Buffer flatResult)])))"
  by pat_completeness auto
termination
  by (relation "measure (\<lambda>x. case x of
          Inl (A, B, n, rest) \<Rightarrow> 3 * nat n
        | Inr (Inl (A11, A12, A21, A22, B11, B12, B21, B22, k, rest)) \<Rightarrow> 3 * nat k + 1
        | Inr (Inr (rank, num_procs, parent_rank, n, rest)) \<Rightarrow> 3 * nat (n sdiv 2) + 2)")
    (auto simp: signed_divide_int_def sgn_if MIN_SIZE_THRESHOLD_def)

section \<open>Worker dispatch loop\<close>

text \<open>
  How a process ends: it returns from \<^verbatim>\<open>main\<close> (\<open>Exited\<close>), it waits forever in a receive
  because no matching message arrives (\<open>Blocked\<close>), or it reaches a point where the C
  code has no defined behaviour (\<open>Undefined\<close>): a message sequence that is not a task, or
  a buffer of more than \<open>INT_MAX\<close> entries.
\<close>

datatype status = Exited | Blocked | Undefined

text \<open>
  The inbox of a worker: the messages that its parent and the coordinator send to it, in
  order of arrival, each with its sender. \<open>recvFrom source\<close> is a receive from one
  sender: it takes the earliest message of that sender.
\<close>

type_synonym inbox = "(int \<times> payload) list"

fun recvFrom :: "int \<Rightarrow> inbox \<Rightarrow> (payload \<times> inbox) option" where
  "recvFrom source [] = None"
| "recvFrom source ((s, m) # rest) =
     (if s = source then Some (m, rest)
      else (case recvFrom source rest of
              None \<Rightarrow> None
            | Some (m', rest') \<Rightarrow> Some (m', (s, m) # rest')))"

text \<open>
  The four receives of lines 133 to 141 that follow a size \<open>n\<close>: product index, level and
  the two buffers of \<open>n * n\<close> entries, all from the sender of the size. The two buffers
  are allocated, after the level has been received, with \<^verbatim>\<open>malloc(n * n * sizeof(int))\<close>.
  On success the result is the task and the remaining inbox; otherwise it is the status
  and the receives completed so far.
\<close>

definition recvTask ::
  "int \<Rightarrow> int \<Rightarrow> int \<Rightarrow> inbox \<Rightarrow>
   (status \<times> event list) + ((int \<times> int \<times> cint list \<times> cint list) \<times> inbox)" where
  "recvTask rank parent_rank n inbox =
     (case recvFrom parent_rank inbox of
        None \<Rightarrow> Inl (Blocked, [])
      | Some (Buffer b, in1) \<Rightarrow> Inl (Undefined, [])
      | Some (Scalar product_index, in1) \<Rightarrow>
     (case recvFrom parent_rank in1 of
        None \<Rightarrow> Inl (Blocked, [Recv rank parent_rank (Scalar product_index)])
      | Some (Buffer b, in2) \<Rightarrow> Inl (Undefined, [Recv rank parent_rank (Scalar product_index)])
      | Some (Scalar level, in2) \<Rightarrow>
          if INT_MAX < n * n
          then Inl (Undefined, [Recv rank parent_rank (Scalar product_index),
                                Recv rank parent_rank (Scalar level)])
          else
     (case recvFrom parent_rank in2 of
        None \<Rightarrow> Inl (Blocked, [Recv rank parent_rank (Scalar product_index),
                                Recv rank parent_rank (Scalar level)])
      | Some (Scalar v, in3) \<Rightarrow> Inl (Undefined, [Recv rank parent_rank (Scalar product_index),
                                              Recv rank parent_rank (Scalar level)])
      | Some (Buffer flatA, in3) \<Rightarrow>
          if length flatA \<noteq> nat (n * n)
          then Inl (Undefined, [Recv rank parent_rank (Scalar product_index),
                                Recv rank parent_rank (Scalar level)])
          else
     (case recvFrom parent_rank in3 of
        None \<Rightarrow> Inl (Blocked, [Recv rank parent_rank (Scalar product_index),
                                Recv rank parent_rank (Scalar level),
                                Recv rank parent_rank (Buffer flatA)])
      | Some (Scalar v, in4) \<Rightarrow> Inl (Undefined, [Recv rank parent_rank (Scalar product_index),
                                              Recv rank parent_rank (Scalar level),
                                              Recv rank parent_rank (Buffer flatA)])
      | Some (Buffer flatB, in4) \<Rightarrow>
          if length flatB \<noteq> nat (n * n)
          then Inl (Undefined, [Recv rank parent_rank (Scalar product_index),
                                Recv rank parent_rank (Scalar level),
                                Recv rank parent_rank (Buffer flatA)])
          else Inr ((product_index, level, flatA, flatB), in4)))))"

text \<open>
  \<^verbatim>\<open>workerProcess\<close>: the loop \<^verbatim>\<open>while (1)\<close>. The first receive accepts the earliest message
  of any sender. Size 0 leaves the loop. A negative size and a product index outside
  0 to 6 are not part of the protocol (the C code then works on unallocated or null
  matrices), so the model stops there with \<open>Undefined\<close>.
\<close>

function workerProcess :: "int \<Rightarrow> int \<Rightarrow> inbox \<Rightarrow> status \<times> event list" where
  "workerProcess rank num_procs inbox =
     (case inbox of
        [] \<Rightarrow> (Blocked, [])
      | (parent_rank, Buffer b) # rest \<Rightarrow> (Undefined, [])
      | (parent_rank, Scalar n) # rest \<Rightarrow>
          if n = 0 then (Exited, [Recv rank parent_rank (Scalar n)])
          else if n < 0 then (Undefined, [Recv rank parent_rank (Scalar n)])
          else
            (case recvTask rank parent_rank n rest of
               Inl (st, tr) \<Rightarrow> (st, Recv rank parent_rank (Scalar n) # tr)
             | Inr ((product_index, level, flatA, flatB), rest') \<Rightarrow>
                 if product_index < 0 \<or> 6 < product_index
                 then (Undefined,
                       [Recv rank parent_rank (Scalar n),
                        Recv rank parent_rank (Scalar product_index),
                        Recv rank parent_rank (Scalar level),
                        Recv rank parent_rank (Buffer flatA),
                        Recv rank parent_rank (Buffer flatB)])
                 else
                   (case workerTask rank num_procs parent_rank n product_index level
                           flatA flatB of
                      None \<Rightarrow>
                        (Undefined,
                         [Recv rank parent_rank (Scalar n),
                          Recv rank parent_rank (Scalar product_index),
                          Recv rank parent_rank (Scalar level),
                          Recv rank parent_rank (Buffer flatA),
                          Recv rank parent_rank (Buffer flatB)])
                    | Some (reply, tr) \<Rightarrow>
                        (case workerProcess rank num_procs rest' of
                           (st, tr') \<Rightarrow> (st, tr @ tr')))))"
  by pat_completeness auto
termination
proof -
  have shorter: "length rest < length inbox"
    if "recvFrom source inbox = Some (m, rest)" for source inbox m rest
    using that
    by (induction inbox arbitrary: m rest) (auto split: if_splits option.splits)
  have task: "length rest < length inbox"
    if "recvTask rank parent_rank n inbox = Inr (t, rest)" for rank parent_rank n inbox t rest
    using that
    by (auto simp: recvTask_def split: option.splits payload.splits if_splits
        dest!: shorter)
  show ?thesis
    by (relation "measure (\<lambda>(rank, num_procs, inbox). length inbox)")
      (auto dest!: task)
qed

section \<open>Coordinator and program entry\<close>

text \<open>
  The lines that \<^verbatim>\<open>main\<close> prints depending on its data: the error for a bad size and the
  verdict of the cross-check. The banner, the matrices and the timing lines are left out.
\<close>

datatype console = SizeError | VerificationPassed | VerificationFailed

text \<open>The comparison loop of lines 78 to 88.\<close>

definition resultsMatch :: "matrix \<Rightarrow> matrix \<Rightarrow> int \<Rightarrow> bool" where
  "resultsMatch C C_verify n =
     list_all (\<lambda>i. list_all (\<lambda>j. C ! i ! j = C_verify ! i ! j) [0..<nat n]) [0..<nat n]"

text \<open>
  \<^verbatim>\<open>main\<close> as run by process \<open>rank\<close> of \<open>num_procs\<close>. \<open>arg\<close> is the size given on the command
  line, if any, as read by \<^verbatim>\<open>atoi\<close>. \<open>A\<close> and \<open>B\<close> are the two matrices that
  \<^verbatim>\<open>initializeRandomMatrix\<close> produces on the coordinator, and \<open>inbox\<close> is what a worker
  receives. The result is how the process ends, what it prints and its events. When the
  kernel has no defined result, neither has the coordinator.
\<close>

definition main ::
  "int \<Rightarrow> int \<Rightarrow> int option \<Rightarrow> matrix \<Rightarrow> matrix \<Rightarrow> inbox \<Rightarrow> status \<times> console list \<times> event list" where
  "main rank num_procs arg A B inbox =
     (let n = (case arg of None \<Rightarrow> 4 | Some v \<Rightarrow> v) in
      if arg \<noteq> None \<and> (\<not> isPowerOfTwo n \<or> n < 2)
      then (Exited, if rank = 0 then [SizeError] else [], [])
      else if rank = 0 then
        (case strassenMultiplyMPI A B n rank num_procs 0 of
           None \<Rightarrow> (Undefined, [], [])
         | Some (C, tr) \<Rightarrow>
             (Exited,
              if n \<le> 2048
              then [if resultsMatch C (strassenMultiply A B n) n
                    then VerificationPassed else VerificationFailed]
              else [],
              tr @ map (\<lambda>i. Send rank i (Scalar 0)) [1..num_procs - 1]))
      else
        (case workerProcess rank num_procs inbox of
           (st, tr) \<Rightarrow> (st, [], tr)))"

section \<open>Notions of the specification\<close>










section \<open>Auxiliary notions for the proofs\<close>

text \<open>
  The contents of the buffer that \<^verbatim>\<open>flattenMatrix\<close> fills and of the matrix that
  \<^verbatim>\<open>unflattenMatrix\<close> fills, whenever these exist.
\<close>

definition rowMajor :: "matrix \<Rightarrow> int \<Rightarrow> cint list" where
  "rowMajor M n = concat (map (\<lambda>i. map (\<lambda>j. M ! i ! j) [0..<nat n]) [0..<nat n])"

definition fromRowMajor :: "cint list \<Rightarrow> int \<Rightarrow> matrix" where
  "fromRowMajor flat n =
     map (\<lambda>i. map (\<lambda>j. flat ! (i * nat n + j)) [0..<nat n]) [0..<nat n]"

text \<open>
  The operand pair that \<^verbatim>\<open>computeStrassenProductMPI\<close> passes to the kernel for product
  \<open>i\<close>, from the quadrants of the two matrices.
\<close>

definition strassenOperands ::
  "matrix \<times> matrix \<times> matrix \<times> matrix \<Rightarrow> matrix \<times> matrix \<times> matrix \<times> matrix \<Rightarrow> int \<Rightarrow> int \<Rightarrow>
   matrix \<times> matrix" where
  "strassenOperands QA QB k i =
     (case QA of (A11, A12, A21, A22) \<Rightarrow> case QB of (B11, B12, B21, B22) \<Rightarrow>
        if i = 0 then (addMatrices A11 A22 k, addMatrices B11 B22 k)
        else if i = 1 then (addMatrices A21 A22 k, B11)
        else if i = 2 then (A11, subtractMatrices B12 B22 k)
        else if i = 3 then (A22, subtractMatrices B21 B11 k)
        else if i = 4 then (addMatrices A11 A12 k, B22)
        else if i = 5 then (subtractMatrices A21 A11 k, addMatrices B11 B12 k)
        else (subtractMatrices A12 A22 k, addMatrices B21 B22 k))"

text \<open>
  Product \<open>i\<close> of a kernel call is offloaded when the call distributes and child \<open>i\<close>
  exists. \<open>slotSends\<close> are the sends of the first loop for product \<open>i\<close>, and \<open>slotEvents\<close>
  are the events that obtaining product \<open>i\<close> causes in the second loop: for an offloaded
  product the events of the child (its five receives, its kernel call and its reply)
  and the receive of the reply, for a local product the events of the recursive kernel
  call.
\<close>

definition offloaded :: "int \<Rightarrow> int \<Rightarrow> int \<Rightarrow> int \<Rightarrow> int \<Rightarrow> bool" where
  "offloaded n level num_procs rank i =
     (shouldDistribute n level num_procs rank \<and> child_rank rank i < num_procs)"

definition slotSends :: "matrix \<Rightarrow> matrix \<Rightarrow> int \<Rightarrow> int \<Rightarrow> int \<Rightarrow> int \<Rightarrow> int \<Rightarrow> event list" where
  "slotSends A B n rank num_procs level i =
     (if offloaded n level num_procs rank i
      then sendTask rank (child_rank rank i) n i level (rowMajor A n) (rowMajor B n)
      else [])"

definition slotEvents :: "matrix \<Rightarrow> matrix \<Rightarrow> int \<Rightarrow> int \<Rightarrow> int \<Rightarrow> int \<Rightarrow> int \<Rightarrow> event list" where
  "slotEvents A B n rank num_procs level i =
     (let k = n sdiv 2;
          ops = strassenOperands (splitMatrix A k) (splitMatrix B k) k i;
          child = child_rank rank i;
          reply = rowMajor (standardMultiply (fst ops) (snd ops) k) k
      in if offloaded n level num_procs rank i
         then [Recv child rank (Scalar n), Recv child rank (Scalar i),
               Recv child rank (Scalar level), Recv child rank (Buffer (rowMajor A n)),
               Recv child rank (Buffer (rowMajor B n))]
              @ snd (the (strassenMultiplyMPI (fst ops) (snd ops) k child num_procs (level + 2)))
              @ [Send child rank (Buffer reply), Recv rank child (Buffer reply)]
         else snd (the (strassenMultiplyMPI (fst ops) (snd ops) k rank num_procs (level + 1))))"



text \<open>The kernel invocations among the events of a kernel call, if it returns.\<close>

fun isInvoke :: "event \<Rightarrow> bool" where
  "isInvoke (Invoke p n level) = True"
| "isInvoke (Send p q m) = False"
| "isInvoke (Recv p q m) = False"

definition invocationsOf :: "(matrix \<times> event list) option \<Rightarrow> event list option" where
  "invocationsOf r = (case r of None \<Rightarrow> None | Some (C, tr) \<Rightarrow> Some (filter isInvoke tr))"


section \<open>Matrix lemmas\<close>

lemma sdiv2_nonneg: "0 \<le> n \<Longrightarrow> n sdiv 2 = n div (2::int)"
  by (simp add: signed_divide_int_def sgn_if)

declare strassenMultiply.simps [simp del]

lemma matD_length: "mat n M \<Longrightarrow> length M = nat n"
  by (simp add: mat_def)

lemma matD_row: "mat n M \<Longrightarrow> i < nat n \<Longrightarrow> length (M ! i) = nat n"
  by (simp add: mat_def list_all_length)

lemma matI: "length M = nat n \<Longrightarrow> (\<And>i. i < nat n \<Longrightarrow> length (M ! i) = nat n) \<Longrightarrow> mat n M"
  by (simp add: mat_def list_all_length)

lemma mat_ext:
  assumes "mat n X" "mat n Y"
    and "\<And>i j. i < nat n \<Longrightarrow> j < nat n \<Longrightarrow> X ! i ! j = Y ! i ! j"
  shows "X = Y"
proof (rule nth_equalityI)
  show "length X = length Y" using assms by (simp add: matD_length)
next
  fix i assume "i < length X"
  then have i: "i < nat n" using assms by (simp add: matD_length)
  show "X ! i = Y ! i"
  proof (rule nth_equalityI)
    show "length (X ! i) = length (Y ! i)" using assms i by (simp add: matD_row)
  next
    fix j assume "j < length (X ! i)"
    then have "j < nat n" using assms i by (simp add: matD_row)
    then show "X ! i ! j = Y ! i ! j" using assms i by simp
  qed
qed

lemma mat_tabulate: "mat n (map (\<lambda>i. map (f i) [0..<nat n]) [0..<nat n])"
  by (rule matI) simp_all

lemma nth_tabulate:
  "i < nat n \<Longrightarrow> j < nat n \<Longrightarrow> map (\<lambda>i. map (f i) [0..<nat n]) [0..<nat n] ! i ! j = f i j"
  by simp

lemma mat_initializeMatrix: "mat n (initializeMatrix n)"
  by (simp add: mat_def initializeMatrix_def list_all_length)

lemma mat_addMatrices: "mat n (addMatrices A B n)"
  unfolding addMatrices_def by (rule mat_tabulate)

lemma mat_subtractMatrices: "mat n (subtractMatrices A B n)"
  unfolding subtractMatrices_def by (rule mat_tabulate)

lemma mat_standardMultiply: "mat n (standardMultiply A B n)"
  unfolding standardMultiply_def by (rule mat_tabulate)

lemma mat_copyMatrix: "mat n dest \<Longrightarrow> mat n (copyMatrix A dest n)"
  by (rule matI) (simp_all add: copyMatrix_def matD_length matD_row)

lemma mat_fromRowMajor: "mat n (fromRowMajor f n)"
  unfolding fromRowMajor_def by (rule mat_tabulate)

lemma nth_addMatrices:
  "i < nat n \<Longrightarrow> j < nat n \<Longrightarrow> addMatrices A B n ! i ! j = A ! i ! j + B ! i ! j"
  by (simp add: addMatrices_def)

lemma nth_subtractMatrices:
  "i < nat n \<Longrightarrow> j < nat n \<Longrightarrow> subtractMatrices A B n ! i ! j = A ! i ! j - B ! i ! j"
  by (simp add: subtractMatrices_def)

lemma foldl_accumulate:
  "foldl (\<lambda>acc k. acc + f k) a [0..<m] = a + (\<Sum>k<m. f k)"
  for a :: "'a::comm_monoid_add"
  by (induction m arbitrary: a) (simp_all add: add.assoc)

lemma nth_standardMultiply:
  "i < nat n \<Longrightarrow> j < nat n \<Longrightarrow>
   standardMultiply A B n ! i ! j = (\<Sum>k<nat n. A ! i ! k * B ! k ! j)"
  by (simp add: standardMultiply_def foldl_accumulate)

lemma copyMatrix_id:
  assumes "mat n M" shows "copyMatrix M (initializeMatrix n) n = M"
proof (rule mat_ext [of n])
  show "mat n (copyMatrix M (initializeMatrix n) n)"
    by (rule mat_copyMatrix) (rule mat_initializeMatrix)
  show "mat n M" by fact
  show "copyMatrix M (initializeMatrix n) n ! i ! j = M ! i ! j" if "i < nat n" "j < nat n" for i j
    using that mat_initializeMatrix [of n]
    by (simp add: copyMatrix_def matD_length matD_row)
qed

lemma sum_halves:
  "(\<Sum>l<k + k. f l) = (\<Sum>l<k. f l) + (\<Sum>l<k. f (l + k))"
  for f :: "nat \<Rightarrow> 'a::comm_monoid_add"
proof -
  have "(\<Sum>l<k + k. f l) = sum f {0..<k} + sum f {0 + k..<k + k}"
    by (simp add: lessThan_atLeast0 sum.atLeastLessThan_concat)
  also have "sum f {0 + k..<k + k} = (\<Sum>l = 0..<k. f (l + k))"
    by (rule sum.shift_bounds_nat_ivl)
  finally show ?thesis by (simp add: lessThan_atLeast0)
qed

lemma strassen_C11:
  fixes a11 :: "nat \<Rightarrow> 'a::comm_ring"
  shows "(\<Sum>l<k. (a11 l + a22 l) * (b11 l + b22 l)) + (\<Sum>l<k. a22 l * (b21 l - b11 l))
         - (\<Sum>l<k. (a11 l + a12 l) * b22 l) + (\<Sum>l<k. (a12 l - a22 l) * (b21 l + b22 l))
       = (\<Sum>l<k. a11 l * b11 l) + (\<Sum>l<k. a12 l * b21 l)"
  by (simp add: algebra_simps sum.distrib sum_subtractf)

lemma strassen_C12:
  fixes a11 :: "nat \<Rightarrow> 'a::comm_ring"
  shows "(\<Sum>l<k. a11 l * (b12 l - b22 l)) + (\<Sum>l<k. (a11 l + a12 l) * b22 l)
       = (\<Sum>l<k. a11 l * b12 l) + (\<Sum>l<k. a12 l * b22 l)"
  by (simp add: algebra_simps sum.distrib sum_subtractf)

lemma strassen_C21:
  fixes a21 :: "nat \<Rightarrow> 'a::comm_ring"
  shows "(\<Sum>l<k. (a21 l + a22 l) * b11 l) + (\<Sum>l<k. a22 l * (b21 l - b11 l))
       = (\<Sum>l<k. a21 l * b11 l) + (\<Sum>l<k. a22 l * b21 l)"
  by (simp add: algebra_simps sum.distrib sum_subtractf)

lemma strassen_C22:
  fixes a11 :: "nat \<Rightarrow> 'a::comm_ring"
  shows "(\<Sum>l<k. (a11 l + a22 l) * (b11 l + b22 l)) - (\<Sum>l<k. (a21 l + a22 l) * b11 l)
         + (\<Sum>l<k. a11 l * (b12 l - b22 l)) + (\<Sum>l<k. (a21 l - a11 l) * (b11 l + b12 l))
       = (\<Sum>l<k. a21 l * b12 l) + (\<Sum>l<k. a22 l * b22 l)"
  by (simp add: algebra_simps sum.distrib sum_subtractf)

lemma splitMatrix_mat:
  assumes "splitMatrix A k = (A11, A12, A21, A22)"
  shows "mat k A11" "mat k A12" "mat k A21" "mat k A22"
  using assms unfolding splitMatrix_def by (auto intro: mat_tabulate)

lemma splitMatrix_nth:
  assumes "splitMatrix A k = (A11, A12, A21, A22)" "i < nat k" "j < nat k"
  shows "A11 ! i ! j = A ! i ! j" "A12 ! i ! j = A ! i ! (j + nat k)"
    "A21 ! i ! j = A ! (i + nat k) ! j" "A22 ! i ! j = A ! (i + nat k) ! (j + nat k)"
  using assms unfolding splitMatrix_def by auto

lemma mat_combineBlocks:
  "mat n C \<Longrightarrow> mat n (combineBlocks C C11 C12 C21 C22 k)"
  by (rule matI) (simp_all add: combineBlocks_def matD_length matD_row)

lemma nth_combineBlocks:
  assumes "mat n C" "i < nat n" "j < nat n"
  shows "combineBlocks C C11 C12 C21 C22 k ! i ! j =
     (if i < nat k \<and> j < nat k then C11 ! i ! j
      else if i < nat k \<and> j < 2 * nat k then C12 ! i ! (j - nat k)
      else if i < 2 * nat k \<and> j < nat k then C21 ! (i - nat k) ! j
      else if i < 2 * nat k \<and> j < 2 * nat k then C22 ! (i - nat k) ! (j - nat k)
      else C ! i ! j)"
  using assms by (simp add: combineBlocks_def matD_length matD_row)

lemma mat_recombine: "mat n (recombine P n k)"
  by (simp add: recombine_def Let_def mat_combineBlocks mat_initializeMatrix)

lemma nth_recombine:
  assumes "i < nat n" "j < nat n" "nat n = 2 * nat k"
  shows "recombine P n k ! i ! j =
     (if i < nat k \<and> j < nat k then
        P ! 0 ! i ! j + P ! 3 ! i ! j - P ! 4 ! i ! j + P ! 6 ! i ! j
      else if i < nat k then
        P ! 2 ! i ! (j - nat k) + P ! 4 ! i ! (j - nat k)
      else if j < nat k then
        P ! 1 ! (i - nat k) ! j + P ! 3 ! (i - nat k) ! j
      else
        P ! 0 ! (i - nat k) ! (j - nat k) - P ! 1 ! (i - nat k) ! (j - nat k)
          + P ! 2 ! (i - nat k) ! (j - nat k) + P ! 5 ! (i - nat k) ! (j - nat k))"
proof -
  have ik: "\<not> i < nat k \<Longrightarrow> i - nat k < nat k" and jk: "\<not> j < nat k \<Longrightarrow> j - nat k < nat k"
    using assms by auto
  show ?thesis
    using assms ik jk
    by (simp add: recombine_def Let_def nth_combineBlocks [OF mat_initializeMatrix]
        nth_addMatrices nth_subtractMatrices)
qed

lemma strassen_step:
  assumes n: "nat n = 2 * nat k"
    and sA: "splitMatrix A k = (A11, A12, A21, A22)"
    and sB: "splitMatrix B k = (B11, B12, B21, B22)"
    and P: "P = [standardMultiply (addMatrices A11 A22 k) (addMatrices B11 B22 k) k,
                 standardMultiply (addMatrices A21 A22 k) B11 k,
                 standardMultiply A11 (subtractMatrices B12 B22 k) k,
                 standardMultiply A22 (subtractMatrices B21 B11 k) k,
                 standardMultiply (addMatrices A11 A12 k) B22 k,
                 standardMultiply (subtractMatrices A21 A11 k) (addMatrices B11 B12 k) k,
                 standardMultiply (subtractMatrices A12 A22 k) (addMatrices B21 B22 k) k]"
  shows "recombine P n k = standardMultiply A B n"
proof (rule mat_ext [of n])
  show "mat n (recombine P n k)" by (rule mat_recombine)
  show "mat n (standardMultiply A B n)" by (rule mat_standardMultiply)
next
  fix i j assume i: "i < nat n" and j: "j < nat n"
  note ent = nth_standardMultiply nth_addMatrices nth_subtractMatrices
    splitMatrix_nth [OF sA] splitMatrix_nth [OF sB]
  have rhs: "standardMultiply A B n ! i ! j =
      (\<Sum>l<nat k. A ! i ! l * B ! l ! j) + (\<Sum>l<nat k. A ! i ! (l + nat k) * B ! (l + nat k) ! j)"
    using i j n by (simp add: nth_standardMultiply mult_2 sum_halves)
  consider (c11) "i < nat k" "j < nat k" | (c12) "i < nat k" "\<not> j < nat k"
    | (c21) "\<not> i < nat k" "j < nat k" | (c22) "\<not> i < nat k" "\<not> j < nat k"
    by blast
  then show "recombine P n k ! i ! j = standardMultiply A B n ! i ! j"
  proof cases
    case c11
    have "recombine P n k ! i ! j =
        (\<Sum>l<nat k. (A ! i ! l + A ! (i + nat k) ! (l + nat k)) * (B ! l ! j + B ! (l + nat k) ! (j + nat k)))
        + (\<Sum>l<nat k. A ! (i + nat k) ! (l + nat k) * (B ! (l + nat k) ! j - B ! l ! j))
        - (\<Sum>l<nat k. (A ! i ! l + A ! i ! (l + nat k)) * B ! (l + nat k) ! (j + nat k))
        + (\<Sum>l<nat k. (A ! i ! (l + nat k) - A ! (i + nat k) ! (l + nat k)) * (B ! (l + nat k) ! j + B ! (l + nat k) ! (j + nat k)))"
      using c11 i j n by (simp add: nth_recombine P ent)
    then show ?thesis unfolding rhs by (simp only: strassen_C11)
  next
    case c12
    then have j': "j - nat k < nat k" "j - nat k + nat k = j" using j n by auto
    have "recombine P n k ! i ! j =
        (\<Sum>l<nat k. A ! i ! l * (B ! l ! j - B ! (l + nat k) ! j))
        + (\<Sum>l<nat k. (A ! i ! l + A ! i ! (l + nat k)) * B ! (l + nat k) ! j)"
      using c12 i j n j' by (simp add: nth_recombine P ent)
    then show ?thesis unfolding rhs by (simp only: strassen_C12)
  next
    case c21
    then have i': "i - nat k < nat k" "i - nat k + nat k = i" using i n by auto
    have "recombine P n k ! i ! j =
        (\<Sum>l<nat k. (A ! i ! l + A ! i ! (l + nat k)) * B ! l ! j)
        + (\<Sum>l<nat k. A ! i ! (l + nat k) * (B ! (l + nat k) ! j - B ! l ! j))"
      using c21 i j n i' by (simp add: nth_recombine P ent)
    then show ?thesis unfolding rhs by (simp only: strassen_C21)
  next
    case c22
    then have i': "i - nat k < nat k" "i - nat k + nat k = i"
      and j': "j - nat k < nat k" "j - nat k + nat k = j" using i j n by auto
    have "recombine P n k ! i ! j =
        (\<Sum>l<nat k. (A ! (i - nat k) ! l + A ! i ! (l + nat k)) * (B ! l ! (j - nat k) + B ! (l + nat k) ! j))
        - (\<Sum>l<nat k. (A ! i ! l + A ! i ! (l + nat k)) * B ! l ! (j - nat k))
        + (\<Sum>l<nat k. A ! (i - nat k) ! l * (B ! l ! j - B ! (l + nat k) ! j))
        + (\<Sum>l<nat k. (A ! i ! l - A ! (i - nat k) ! l) * (B ! l ! (j - nat k) + B ! l ! j))"
      using c22 i j n i' j' by (simp add: nth_recombine P ent)
    then show ?thesis unfolding rhs by (simp only: strassen_C22)
  qed
qed

lemma standardMultiply_1: "standardMultiply A B 1 = [[A ! 0 ! 0 * B ! 0 ! 0]]"
  by (simp add: standardMultiply_def)

lemma sdiv2_pow2: "(2 * 2 ^ m) sdiv 2 = (2 ^ m :: int)"
  by (simp add: sdiv2_nonneg)

lemma strassenMultiply_pow2:
  "strassenMultiply A B (2 ^ m) = standardMultiply A B (2 ^ m)"
proof (induction m arbitrary: A B)
  case 0
  show ?case by (simp add: strassenMultiply.simps standardMultiply_1)
next
  case (Suc m)
  let ?n = "2 * 2 ^ m :: int" and ?k = "2 ^ m :: int"
  have n1: "?n \<noteq> 1" by presburger
  show ?case
  proof (cases "?n \<le> 32")
    case True
    with n1 show ?thesis by (simp add: strassenMultiply.simps)
  next
    case False
    obtain A11 A12 A21 A22 where sA: "splitMatrix A ?k = (A11, A12, A21, A22)"
      by (cases "splitMatrix A ?k") auto
    obtain B11 B12 B21 B22 where sB: "splitMatrix B ?k = (B11, B12, B21, B22)"
      by (cases "splitMatrix B ?k") auto
    have nk: "nat ?n = 2 * nat ?k" by (simp add: nat_mult_distrib)
    have "strassenMultiply A B ?n = recombine
             [standardMultiply (addMatrices A11 A22 ?k) (addMatrices B11 B22 ?k) ?k,
              standardMultiply (addMatrices A21 A22 ?k) B11 ?k,
              standardMultiply A11 (subtractMatrices B12 B22 ?k) ?k,
              standardMultiply A22 (subtractMatrices B21 B11 ?k) ?k,
              standardMultiply (addMatrices A11 A12 ?k) B22 ?k,
              standardMultiply (subtractMatrices A21 A11 ?k) (addMatrices B11 B12 ?k) ?k,
              standardMultiply (subtractMatrices A12 A22 ?k) (addMatrices B21 B22 ?k) ?k]
             ?n ?k"
      using False n1
      by (subst strassenMultiply.simps) (simp add: sdiv2_pow2 sA sB Suc.IH)
    also have "\<dots> = standardMultiply A B ?n"
      by (rule strassen_step [OF nk sA sB refl])
    finally show ?thesis by simp
  qed
qed

section \<open>The kernel, unfolded\<close>

declare strassenMultiplyMPI.simps [simp del] computeStrassenProductMPI.simps [simp del]
  workerTask.simps [simp del] workerProcess.simps [simp del]

lemma concat_tabulate_length:
  "length (concat (map (\<lambda>i. map (f i) [0..<n]) [0..<m])) = m * n"
  by (induction m) simp_all

lemma concat_tabulate_nth:
  "i < m \<Longrightarrow> j < n \<Longrightarrow> concat (map (\<lambda>i. map (f i) [0..<n]) [0..<m]) ! (i * n + j) = f i j"
proof (induction m)
  case 0
  then show ?case by simp
next
  case (Suc m)
  show ?case
  proof (cases "i < m")
    case True
    then have "i * n + j < m * n"
      using Suc.prems(2) by (metis add.commute mult_Suc less_le_trans add_less_cancel_left
          Suc_leI mult_le_mono1)
    then show ?thesis using Suc True by (simp add: nth_append concat_tabulate_length)
  next
    case False
    then have "i = m" using Suc.prems by simp
    then show ?thesis using Suc.prems by (simp add: nth_append concat_tabulate_length)
  qed
qed

lemma length_rowMajor: "length (rowMajor M n) = nat n * nat n"
  by (simp add: rowMajor_def concat_tabulate_length)

lemma nth_rowMajor:
  "i < nat n \<Longrightarrow> j < nat n \<Longrightarrow> rowMajor M n ! (i * nat n + j) = M ! i ! j"
  unfolding rowMajor_def by (rule concat_tabulate_nth)

lemma nth_fromRowMajor_rowMajor:
  "i < nat n \<Longrightarrow> j < nat n \<Longrightarrow> fromRowMajor (rowMajor M n) n ! i ! j = M ! i ! j"
  by (simp add: fromRowMajor_def nth_rowMajor)

lemma fromRowMajor_rowMajor:
  assumes "mat n M" shows "fromRowMajor (rowMajor M n) n = M"
proof (rule mat_ext [of n])
  show "mat n (fromRowMajor (rowMajor M n) n)" by (rule mat_fromRowMajor)
  show "mat n M" by fact
  show "fromRowMajor (rowMajor M n) n ! i ! j = M ! i ! j"
    if "i < nat n" "j < nat n" for i j
    using that by (rule nth_fromRowMajor_rowMajor)
qed

lemma splitMatrix_cong:
  assumes "\<And>i j. i < 2 * nat k \<Longrightarrow> j < 2 * nat k \<Longrightarrow> M ! i ! j = N ! i ! j"
  shows "splitMatrix M k = splitMatrix N k"
  unfolding splitMatrix_def using assms by simp

lemma splitMatrix_fromRowMajor_rowMajor:
  "nat n = 2 * nat k \<Longrightarrow> splitMatrix (fromRowMajor (rowMajor M n) n) k = splitMatrix M k"
  by (rule splitMatrix_cong) (simp add: nth_fromRowMajor_rowMajor)

text \<open>The two conversions within and beyond the range of \<^verbatim>\<open>int\<close>.\<close>

lemma flattenMatrix_in_range: "n * n \<le> INT_MAX \<Longrightarrow> flattenMatrix M n = Some (rowMajor M n)"
  by (simp add: flattenMatrix_def rowMajor_def)

lemma unflattenMatrix_in_range:
  "n * n \<le> INT_MAX \<Longrightarrow> unflattenMatrix flat n = Some (fromRowMajor flat n)"
  by (simp add: unflattenMatrix_def fromRowMajor_def)

lemma flattenMatrix_overflow: "INT_MAX < n * n \<Longrightarrow> flattenMatrix M n = None"
  by (simp add: flattenMatrix_def)

lemma half_in_range:
  assumes "0 \<le> n" and "n * n \<le> INT_MAX"
  shows "(n sdiv 2) * (n sdiv 2) \<le> INT_MAX"
proof -
  have "0 \<le> n div 2" "n div 2 \<le> n" using assms(1) by simp_all
  then have "(n div 2) * (n div 2) \<le> n * n"
    using assms(1) by (intro mult_mono) simp_all
  with assms show ?thesis by (simp add: sdiv2_nonneg)
qed

lemma those_map_Some:
  "(\<And>x. x \<in> set xs \<Longrightarrow> f x = Some (g x)) \<Longrightarrow> those (map f xs) = Some (map g xs)"
  by (induction xs) simp_all

lemma computeStrassenProductMPI_operands:
  assumes sA: "splitMatrix A k = (A11, A12, A21, A22)"
    and sB: "splitMatrix B k = (B11, B12, B21, B22)"
    and i: "i \<in> set slots"
  shows "computeStrassenProductMPI A11 A12 A21 A22 B11 B12 B21 B22 k rank num_procs level i =
     strassenMultiplyMPI (fst (strassenOperands (splitMatrix A k) (splitMatrix B k) k i))
       (snd (strassenOperands (splitMatrix A k) (splitMatrix B k) k i)) k rank num_procs (level + 1)"
  using i splitMatrix_mat [OF sA] splitMatrix_mat [OF sB]
  by (auto simp: computeStrassenProductMPI.simps strassenOperands_def sA sB slots_def
      copyMatrix_id)

lemma workerTask_unfold:
  assumes rng: "n * n \<le> INT_MAX" and pos: "0 \<le> n" and i: "i \<in> set slots"
    and sub: "strassenMultiplyMPI
        (fst (strassenOperands (splitMatrix (fromRowMajor flatA n) (n sdiv 2))
                (splitMatrix (fromRowMajor flatB n) (n sdiv 2)) (n sdiv 2) i))
        (snd (strassenOperands (splitMatrix (fromRowMajor flatA n) (n sdiv 2))
                (splitMatrix (fromRowMajor flatB n) (n sdiv 2)) (n sdiv 2) i))
        (n sdiv 2) rank num_procs (level + 2) = Some (C, tr)"
  shows "workerTask rank num_procs parent n i level flatA flatB =
     Some (rowMajor C (n sdiv 2),
           [Recv rank parent (Scalar n), Recv rank parent (Scalar i),
            Recv rank parent (Scalar level), Recv rank parent (Buffer flatA),
            Recv rank parent (Buffer flatB)]
           @ tr @ [Send rank parent (Buffer (rowMajor C (n sdiv 2)))])"
proof -
  obtain A11 A12 A21 A22 where
    sA: "splitMatrix (fromRowMajor flatA n) (n sdiv 2) = (A11, A12, A21, A22)"
    by (cases "splitMatrix (fromRowMajor flatA n) (n sdiv 2)") auto
  obtain B11 B12 B21 B22 where
    sB: "splitMatrix (fromRowMajor flatB n) (n sdiv 2) = (B11, B12, B21, B22)"
    by (cases "splitMatrix (fromRowMajor flatB n) (n sdiv 2)") auto
  have r: "\<not> INT_MAX < n * n" using rng by simp
  have c: "computeStrassenProductMPI A11 A12 A21 A22 B11 B12 B21 B22 (n sdiv 2) rank num_procs
             (level + 1) i = Some (C, tr)"
    using sub by (simp add: computeStrassenProductMPI_operands [OF sA sB i] add.assoc)
  show ?thesis
    apply (subst workerTask.simps)
    apply (simp only: r if_False unflattenMatrix_in_range [OF rng] option.case sA sB prod.case c
        flattenMatrix_in_range [OF half_in_range [OF pos rng]])
    done
qed

lemma strassenMultiplyMPI_small:
  "n \<le> MIN_SIZE_THRESHOLD \<Longrightarrow> 1 \<le> n \<Longrightarrow>
   strassenMultiplyMPI A B n rank num_procs level
     = Some (standardMultiply A B n, [Invoke rank n level])"
  by (simp add: strassenMultiplyMPI.simps standardMultiply_1)


lemma even_pow2: "nat (2 * 2 ^ m :: int) = 2 * nat ((2 * 2 ^ m) sdiv 2)"
  by (simp add: sdiv2_pow2 nat_mult_distrib)

lemma recombine_operands:
  assumes "nat n = 2 * nat k"
  shows "recombine (map (\<lambda>i. standardMultiply
            (fst (strassenOperands (splitMatrix A k) (splitMatrix B k) k i))
            (snd (strassenOperands (splitMatrix A k) (splitMatrix B k) k i)) k) slots) n k
       = standardMultiply A B n"
proof -
  obtain A11 A12 A21 A22 where sA: "splitMatrix A k = (A11, A12, A21, A22)"
    by (cases "splitMatrix A k") auto
  obtain B11 B12 B21 B22 where sB: "splitMatrix B k = (B11, B12, B21, B22)"
    by (cases "splitMatrix B k") auto
  show ?thesis
    unfolding sA sB
    by (rule trans [OF _ strassen_step [OF assms sA sB refl]])
      (simp add: slots_def strassenOperands_def)
qed

text \<open>
  One step of the kernel on an even side within the range of \<^verbatim>\<open>int\<close>, when the kernel
  multiplies on the half side: the result is the product, and the events are the
  invocation, the sends of the first loop and the events of the seven products.
\<close>

lemma strassenMultiplyMPI_unfold:
  assumes big: "MIN_SIZE_THRESHOLD < n" and even: "nat n = 2 * nat (n sdiv 2)"
    and rng: "n * n \<le> INT_MAX"
    and sub: "\<And>X Y r l. \<exists>tr. strassenMultiplyMPI X Y (n sdiv 2) r num_procs l
                = Some (standardMultiply X Y (n sdiv 2), tr)"
  shows "strassenMultiplyMPI A B n rank num_procs level =
     Some (standardMultiply A B n,
           Invoke rank n level
             # concat (map (slotSends A B n rank num_procs level) slots)
             @ concat (map (slotEvents A B n rank num_procs level) slots))"
proof -
  let ?k = "n sdiv 2"
  let ?ops = "\<lambda>i. strassenOperands (splitMatrix A ?k) (splitMatrix B ?k) ?k i"
  let ?g = "\<lambda>i. (standardMultiply (fst (?ops i)) (snd (?ops i)) ?k,
                   slotEvents A B n rank num_procs level i)"
  obtain A11 A12 A21 A22 where sA: "splitMatrix A ?k = (A11, A12, A21, A22)"
    by (cases "splitMatrix A ?k") auto
  obtain B11 B12 B21 B22 where sB: "splitMatrix B ?k = (B11, B12, B21, B22)"
    by (cases "splitMatrix B ?k") auto
  have n1: "n \<noteq> 1" "\<not> n \<le> MIN_SIZE_THRESHOLD" and pos: "0 \<le> n"
    using big by (auto simp: MIN_SIZE_THRESHOLD_def)
  have krng: "?k * ?k \<le> INT_MAX" by (rule half_in_range [OF pos rng])
  have sub': "strassenMultiplyMPI X Y ?k r num_procs l
      = Some (standardMultiply X Y ?k, snd (the (strassenMultiplyMPI X Y ?k r num_procs l)))"
    for X Y r l
    using sub [of X Y r l] by auto
  have loc: "computeStrassenProductMPI A11 A12 A21 A22 B11 B12 B21 B22 ?k rank num_procs level i
      = Some (?g i)"
    if "i \<in> set slots" "\<not> offloaded n level num_procs rank i" for i
    using that sub' [of "fst (?ops i)" "snd (?ops i)" rank "level + 1"]
    by (simp add: computeStrassenProductMPI_operands [OF sA sB] slotEvents_def Let_def)
  have rem: "(case flattenMatrix A n of None \<Rightarrow> None | Some flatA \<Rightarrow>
              case flattenMatrix B n of None \<Rightarrow> None | Some flatB \<Rightarrow>
              case workerTask (child_rank rank i) num_procs rank n i level flatA flatB of
                None \<Rightarrow> None
              | Some (flatResult, tr) \<Rightarrow>
              case unflattenMatrix flatResult ?k of
                None \<Rightarrow> None
              | Some Pi \<Rightarrow> Some (Pi, tr @ [Recv rank (child_rank rank i) (Buffer flatResult)]))
      = Some (?g i)"
    if i: "i \<in> set slots" and off: "offloaded n level num_procs rank i" for i
  proof -
    have w: "workerTask (child_rank rank i) num_procs rank n i level (rowMajor A n) (rowMajor B n)
        = Some (rowMajor (standardMultiply (fst (?ops i)) (snd (?ops i)) ?k) ?k,
            [Recv (child_rank rank i) rank (Scalar n), Recv (child_rank rank i) rank (Scalar i),
             Recv (child_rank rank i) rank (Scalar level),
             Recv (child_rank rank i) rank (Buffer (rowMajor A n)),
             Recv (child_rank rank i) rank (Buffer (rowMajor B n))]
            @ snd (the (strassenMultiplyMPI (fst (?ops i)) (snd (?ops i)) ?k (child_rank rank i)
                         num_procs (level + 2)))
            @ [Send (child_rank rank i) rank
                 (Buffer (rowMajor (standardMultiply (fst (?ops i)) (snd (?ops i)) ?k) ?k))])"
      by (rule workerTask_unfold [OF rng pos i])
        (simp only: splitMatrix_fromRowMajor_rowMajor [OF even] sub' [symmetric])
    show ?thesis
      using off
      by (simp add: flattenMatrix_in_range [OF rng] w unflattenMatrix_in_range [OF krng]
          fromRowMajor_rowMajor mat_standardMultiply slotEvents_def Let_def)
  qed
  have res: "recombine (map fst (map ?g slots)) n ?k = standardMultiply A B n"
    using recombine_operands [OF even, of A B] by (simp add: o_def)
  have ev: "map snd (map ?g slots) = map (slotEvents A B n rank num_procs level) slots"
    by (simp add: o_def)
  show ?thesis
  proof (cases "shouldDistribute n level num_procs rank")
    case True
    have P: "those (map (\<lambda>i. if child_rank rank i < num_procs
                  then (case flattenMatrix A n of None \<Rightarrow> None | Some flatA \<Rightarrow>
                        case flattenMatrix B n of None \<Rightarrow> None | Some flatB \<Rightarrow>
                        case workerTask (child_rank rank i) num_procs rank n i level flatA flatB of
                          None \<Rightarrow> None
                        | Some (flatResult, tr) \<Rightarrow>
                        case unflattenMatrix flatResult ?k of
                          None \<Rightarrow> None
                        | Some Pi \<Rightarrow>
                            Some (Pi, tr @ [Recv rank (child_rank rank i) (Buffer flatResult)]))
                  else computeStrassenProductMPI A11 A12 A21 A22 B11 B12 B21 B22
                         ?k rank num_procs level i) slots)
        = Some (map ?g slots)"
      by (rule those_map_Some) (use True loc rem in \<open>auto simp: offloaded_def\<close>)
    have S: "those (map (\<lambda>i. if child_rank rank i < num_procs
                  then (case flattenMatrix A n of None \<Rightarrow> None | Some flatA \<Rightarrow>
                        case flattenMatrix B n of None \<Rightarrow> None | Some flatB \<Rightarrow>
                          Some (sendTask rank (child_rank rank i) n i level flatA flatB))
                  else Some []) slots)
        = Some (map (slotSends A B n rank num_procs level) slots)"
      by (rule those_map_Some)
        (use True in \<open>auto simp: slotSends_def offloaded_def flattenMatrix_in_range [OF rng]\<close>)
    show ?thesis
      apply (subst strassenMultiplyMPI.simps)
      apply (simp only: n1 if_False sA sB prod.case True if_True P S option.case)
      apply (simp only: sA [symmetric] sB [symmetric] res ev)
      done
  next
    case False
    have P: "those (map (\<lambda>i. computeStrassenProductMPI A11 A12 A21 A22 B11 B12 B21 B22
                         ?k rank num_procs level i) slots)
        = Some (map ?g slots)"
      by (rule those_map_Some) (use False loc in \<open>auto simp: offloaded_def\<close>)
    have S: "concat (map (slotSends A B n rank num_procs level) slots) = []"
      using False by (simp add: slotSends_def offloaded_def)
    show ?thesis
      apply (subst strassenMultiplyMPI.simps)
      apply (simp only: n1 if_False sA sB prod.case False P option.case)
      apply (simp only: sA [symmetric] sB [symmetric] res ev S append_Nil)
      done
  qed
qed

lemma pow2_sdiv2: "n = 2 ^ m \<Longrightarrow> 2 \<le> n \<Longrightarrow> n sdiv 2 = (2 ^ (m - 1) :: int) \<and> n = 2 * 2 ^ (m - 1)"
  by (cases m) (simp_all add: sdiv2_nonneg)

lemma pow2_half_in_range:
  "(2 * 2 ^ m) * (2 * 2 ^ m) \<le> INT_MAX \<Longrightarrow> (2 ^ m :: int) * 2 ^ m \<le> INT_MAX"
  using half_in_range [of "2 * 2 ^ m"] by (simp add: sdiv2_pow2)

text \<open>Within the range of \<^verbatim>\<open>int\<close> the kernel returns, and what it returns is the product.\<close>

lemma strassenMultiplyMPI_result:
  "(2 ^ m :: int) * 2 ^ m \<le> INT_MAX \<Longrightarrow>
   \<exists>tr. strassenMultiplyMPI A B (2 ^ m) rank num_procs level
          = Some (standardMultiply A B (2 ^ m), tr)"
proof (induction m arbitrary: A B rank level)
  case 0
  show ?case by (simp add: strassenMultiplyMPI.simps standardMultiply_1)
next
  case (Suc m)
  let ?n = "2 * 2 ^ m :: int"
  show ?case
  proof (cases "?n \<le> MIN_SIZE_THRESHOLD")
    case True
    have "1 \<le> ?n" using one_le_power [of "2::int" "Suc m"] by simp
    from strassenMultiplyMPI_small [OF True this] show ?thesis by simp
  next
    case False
    then have big: "MIN_SIZE_THRESHOLD < ?n" by simp
    have rng: "?n * ?n \<le> INT_MAX" using Suc.prems by simp
    have sub: "\<exists>tr. strassenMultiplyMPI X Y (?n sdiv 2) r num_procs l
                = Some (standardMultiply X Y (?n sdiv 2), tr)" for X Y r l
      unfolding sdiv2_pow2 by (rule Suc.IH) (rule pow2_half_in_range [OF rng])
    from strassenMultiplyMPI_unfold [OF big even_pow2 rng sub] show ?thesis by simp
  qed
qed

lemma strassenMultiplyMPI_events:
  assumes n: "n = 2 ^ m" and big: "MIN_SIZE_THRESHOLD < n" and rng: "n * n \<le> INT_MAX"
  shows "strassenMultiplyMPI A B n rank num_procs level =
     Some (standardMultiply A B n,
           Invoke rank n level
             # concat (map (slotSends A B n rank num_procs level) slots)
             @ concat (map (slotEvents A B n rank num_procs level) slots))"
proof -
  have n2: "2 \<le> n" using big by (simp add: MIN_SIZE_THRESHOLD_def)
  have k: "n sdiv 2 = 2 ^ (m - 1)" and n': "n = 2 * 2 ^ (m - 1)"
    using pow2_sdiv2 [OF n n2] by blast+
  have even: "nat n = 2 * nat (n sdiv 2)"
    unfolding k by (subst n') (simp add: nat_mult_distrib)
  have "(2 ^ (m - 1) :: int) * 2 ^ (m - 1) \<le> INT_MAX"
    using half_in_range [of n] rng n2 k by simp
  then have sub: "\<exists>tr. strassenMultiplyMPI X Y (n sdiv 2) r num_procs l
                = Some (standardMultiply X Y (n sdiv 2), tr)" for X Y r l
    unfolding k by (rule strassenMultiplyMPI_result)
  show ?thesis by (rule strassenMultiplyMPI_unfold [OF big even rng sub])
qed

section \<open>Powers of two and the process tree\<close>

lemma and_pred_step:
  "(n :: int) AND (n - 1) = 2 * ((n div 2) AND ((n - 1) div 2))"
  by (subst and_rec) simp

lemma isPowerOfTwo_iff: "isPowerOfTwo n \<longleftrightarrow> (\<exists>m. n = 2 ^ m)"
proof (induction "nat n" arbitrary: n rule: less_induct)
  case less
  show ?case
  proof (cases "n \<le> 0")
    case True
    have "n \<noteq> 2 ^ m" for m
    proof
      assume "n = 2 ^ m"
      moreover have "(0 :: int) < 2 ^ m" by simp
      ultimately show False using True by simp
    qed
    with True show ?thesis by (simp add: isPowerOfTwo_def)
  next
    case False
    then have pos: "0 < n" by simp
    show ?thesis
    proof (cases "even n")
      case True
      then obtain q where q: "n = 2 * q" by (elim evenE)
      with pos have qpos: "0 < q" by simp
      have "nat q < nat n" using q qpos by simp
      from less [OF this] have IH: "isPowerOfTwo q \<longleftrightarrow> (\<exists>m. q = 2 ^ m)" .
      have d: "(n - 1) div 2 = q - 1" "n div 2 = q" using q by simp_all
      have "n AND (n - 1) = 2 * (q AND (q - 1))"
        using and_pred_step [of n] unfolding d .
      then have "isPowerOfTwo n \<longleftrightarrow> isPowerOfTwo q"
        using pos qpos by (simp add: isPowerOfTwo_def)
      also have "\<dots> \<longleftrightarrow> (\<exists>m. q = 2 ^ m)" by (rule IH)
      also have "\<dots> \<longleftrightarrow> (\<exists>m. n = 2 ^ m)"
      proof
        assume "\<exists>m. q = 2 ^ m"
        then obtain m where "q = 2 ^ m" ..
        then have "n = 2 ^ Suc m" using q by simp
        then show "\<exists>m. n = 2 ^ m" ..
      next
        assume "\<exists>m. n = 2 ^ m"
        then obtain m where m: "n = 2 ^ m" ..
        show "\<exists>m. q = 2 ^ m"
        proof (cases m)
          case 0
          with m True show ?thesis by simp
        next
          case (Suc m')
          with m q have "q = 2 ^ m'" by simp
          then show ?thesis ..
        qed
      qed
      finally show ?thesis .
    next
      case False
      then obtain q where q: "n = 2 * q + 1" by (elim oddE)
      with pos have qpos: "0 \<le> q" by simp
      have d: "(n - 1) div 2 = q" "n div 2 = q" using q by simp_all
      have a: "n AND (n - 1) = 2 * q"
        using and_pred_step [of n] unfolding d by simp
      have "(\<exists>m. n = 2 ^ m) \<longleftrightarrow> n = 1"
      proof
        assume "\<exists>m. n = 2 ^ m"
        then obtain m where m: "n = 2 ^ m" ..
        show "n = 1"
        proof (cases m)
          case 0
          with m show ?thesis by simp
        next
          case (Suc m')
          with m False show ?thesis by simp
        qed
      next
        assume "n = 1"
        then have "n = 2 ^ 0" by simp
        then show "\<exists>m. n = 2 ^ m" ..
      qed
      moreover have "isPowerOfTwo n \<longleftrightarrow> n = 1"
        using pos a q by (auto simp: isPowerOfTwo_def)
      ultimately show ?thesis by simp
    qed
  qed
qed

lemma set_slots: "set slots = {0..6}"
  by (auto simp: slots_def)






text \<open>The distribution decision on machine words.\<close>

lemma int32_signed_take_bit: "int32 x = signed_take_bit 31 x"
  by (simp add: int32_def signed_take_bit_eq_take_bit_shift take_bit_eq_mod)

lemma int32_id: "- (2 ^ 31) \<le> x \<Longrightarrow> x < 2 ^ 31 \<Longrightarrow> int32 x = x"
  by (simp add: int32_def)

lemma sint_first_child: "sint (rank * 7 + 1 :: cint) = int32 (sint rank * 7 + 1)"
proof -
  have "(rank * 7 + 1 :: cint) = word_of_int (sint rank * 7 + 1)"
    by simp
  then have "sint (rank * 7 + 1 :: cint) = signed_take_bit 31 (sint rank * 7 + 1)"
    by (simp only: sint_sbintrunc') simp
  then show ?thesis by (simp only: int32_signed_take_bit)
qed

lemma shouldDistribute32_eq:
  "shouldDistribute32 n level num_procs rank
     = shouldDistribute (sint n) (sint level) (sint num_procs) (sint rank)"
  by (simp add: shouldDistribute32_def shouldDistribute_def word_sle_eq
      sint_first_child MIN_SIZE_THRESHOLD_def MAX_TREE_HEIGHT_def)

section \<open>Events of the kernel and of the worker loop\<close>







text \<open>The worker loop.\<close>

lemma workerProcess_sentinel:
  "workerProcess rank num_procs ((source, Scalar 0) # rest) = (Exited, [Recv rank source (Scalar 0)])"
  by (subst workerProcess.simps) simp

lemma workerProcess_task:
  assumes "0 < n" and "product_index \<in> set slots"
    and "recvTask rank parent_rank n rest = Inr ((product_index, level, flatA, flatB), rest')"
    and "workerTask rank num_procs parent_rank n product_index level flatA flatB = Some (reply, tr)"
  shows "workerProcess rank num_procs ((parent_rank, Scalar n) # rest) =
     (fst (workerProcess rank num_procs rest'), tr @ snd (workerProcess rank num_procs rest'))"
  using assms
  by (subst workerProcess.simps) (auto simp: set_slots split: prod.splits)

lemma recvTask_consecutive:
  assumes "n * n \<le> INT_MAX" and "length flatA = nat (n * n)" and "length flatB = nat (n * n)"
  shows "recvTask rank parent_rank n
           ((parent_rank, Scalar product_index) # (parent_rank, Scalar level)
            # (parent_rank, Buffer flatA) # (parent_rank, Buffer flatB) # rest)
         = Inr ((product_index, level, flatA, flatB), rest)"
  using assms by (simp add: recvTask_def)





section \<open>The Strassen step, entry by entry\<close>




section \<open>The cross-check of the coordinator\<close>



section \<open>The kernel computes the product\<close>

text \<open>
  Within the range of \<^verbatim>\<open>int\<close> the kernel computes the product. For every side \<open>n\<close> that is
  a power of two with \<open>n * n \<le> INT_MAX\<close> (the sides up to 32768), every number of
  processes, rank and level and all matrices \<open>A\<close> and \<open>B\<close> of side \<open>n\<close>, the call
  \<open>strassenMultiplyMPI A B n rank num_procs level\<close> returns, the matrix it returns is
  \<open>standardMultiply A B n\<close>, it has side \<open>n\<close>, and its entry \<open>(i, j)\<close> is the sum over \<open>k\<close>
  of \<open>A[i][k] * B[k][j]\<close>.
\<close>

lemma strassenMultiplyMPI_in_range:
  assumes "n = 2 ^ m" and "n * n \<le> INT_MAX" and "mat n A" and "mat n B"
  shows "\<exists>C tr. strassenMultiplyMPI A B n rank num_procs level = Some (C, tr)
       \<and> C = standardMultiply A B n \<and> mat n C
       \<and> (\<forall>i<nat n. \<forall>j<nat n. C ! i ! j = (\<Sum>k<nat n. A ! i ! k * B ! k ! j))"
  using strassenMultiplyMPI_result [of m A B rank num_procs level] assms(1,2)
  by (auto simp: mat_standardMultiply nth_standardMultiply)

text \<open>
  Beyond that range a kernel call that distributes has no result: its first loop flattens
  the operands for the first child, and the buffer of \<open>n * n\<close> entries does not exist.
\<close>

lemma strassenMultiplyMPI_overflow:
  assumes big: "MIN_SIZE_THRESHOLD < n" and over: "INT_MAX < n * n"
    and dist: "shouldDistribute n level num_procs rank"
    and child: "child_rank rank 0 < num_procs"
  shows "strassenMultiplyMPI A B n rank num_procs level = None"
proof -
  obtain A11 A12 A21 A22 where sA: "splitMatrix A (n sdiv 2) = (A11, A12, A21, A22)"
    by (cases "splitMatrix A (n sdiv 2)") auto
  obtain B11 B12 B21 B22 where sB: "splitMatrix B (n sdiv 2) = (B11, B12, B21, B22)"
    by (cases "splitMatrix B (n sdiv 2)") auto
  have n1: "n \<noteq> 1" "\<not> n \<le> MIN_SIZE_THRESHOLD"
    using big by (auto simp: MIN_SIZE_THRESHOLD_def)
  show ?thesis
    by (subst strassenMultiplyMPI.simps)
      (simp add: n1 sA sB dist child slots_def flattenMatrix_overflow [OF over])
qed

text \<open>
  C1. The top-level call \<open>strassenMultiplyMPI A B n 0 num_procs 0\<close> does not return the
  cubic reference product for every side \<open>n \<ge> 2\<close> that is a power of two and every number
  of processes. On the side \<open>65536 = 2^16\<close>, which \<^verbatim>\<open>main\<close> accepts, and with two processes,
  the call of rank 0 distributes, flattens \<open>A\<close> for child 1 and needs a buffer of
  \<open>n * n = 2^32\<close> entries, a number that is not an \<^verbatim>\<open>int\<close>. For any two matrices the call
  has no result.
\<close>

theorem distributed_product_overflow:
  "strassenMultiplyMPI A B 65536 0 2 0 = None"
proof -
  have big: "MIN_SIZE_THRESHOLD < 65536" by (simp add: MIN_SIZE_THRESHOLD_def)
  have over: "INT_MAX < 65536 * 65536" by (simp add: INT_MAX_def)
  have dist: "shouldDistribute 65536 0 2 0"
    by (simp add: shouldDistribute_def MIN_SIZE_THRESHOLD_def MAX_TREE_HEIGHT_def int32_def)
  have child: "child_rank 0 0 < 2" by (simp add: child_rank_def)
  show ?thesis
    by (rule strassenMultiplyMPI_overflow [OF big over dist child])
qed

text \<open>
  The coordinator of that run passes the size check and ends without a defined
  behaviour, instead of holding the product.
\<close>

lemma main_overflow: "main 0 2 (Some 65536) A B inbox = (Undefined, [], [])"
proof -
  have big: "MIN_SIZE_THRESHOLD < 65536" by (simp add: MIN_SIZE_THRESHOLD_def)
  have over: "INT_MAX < 65536 * 65536" by (simp add: INT_MAX_def)
  have dist: "shouldDistribute 65536 0 2 0"
    by (simp add: shouldDistribute_def MIN_SIZE_THRESHOLD_def MAX_TREE_HEIGHT_def int32_def)
  have child: "child_rank 0 0 < 2" by (simp add: child_rank_def)
  have k: "strassenMultiplyMPI A B 65536 0 2 0 = None"
    by (rule strassenMultiplyMPI_overflow [OF big over dist child])
  have "(65536 :: int) = 2 ^ 16" by simp
  then have p: "isPowerOfTwo 65536" unfolding isPowerOfTwo_iff by (rule exI)
  from k p show ?thesis by (simp add: main_def)
qed




text \<open>
  C5. For every side \<open>n\<close> from 1 to \<open>MIN_SIZE_THRESHOLD\<close>, the threshold included, and every
  number of processes, rank and level, the kernel does not distribute: it returns exactly
  \<open>standardMultiply A B n\<close> and its only event is its own invocation, with no message sent
  or received. For \<open>n = 1\<close> this is the scalar product \<open>A[0][0] * B[0][0]\<close>.
\<close>

theorem small_sizes_computed_locally:
  assumes "1 \<le> n" and "n \<le> MIN_SIZE_THRESHOLD"
  shows "strassenMultiplyMPI A B n rank num_procs level
           = Some (standardMultiply A B n, [Invoke rank n level])
       \<and> \<not> shouldDistribute n level num_procs rank
       \<and> (n = 1 \<longrightarrow> standardMultiply A B n = [[A ! 0 ! 0 * B ! 0 ! 0]])"
  using assms
  by (simp add: strassenMultiplyMPI_small shouldDistribute_def standardMultiply_1)

text \<open>The example of the specification: side 2 and a single process.\<close>

theorem small_sizes_witness:
  "(1 :: int) \<le> 2 \<and> 2 \<le> MIN_SIZE_THRESHOLD
   \<and> strassenMultiplyMPI [[1, 2], [3, 4]] [[5, 6], [7, 8]] 2 0 1 0
     = Some ([[19, 22], [43, 50]], [Invoke 0 2 0])"
proof -
  have a: "(1 :: int) \<le> 2" and b: "2 \<le> MIN_SIZE_THRESHOLD"
    by (simp_all add: MIN_SIZE_THRESHOLD_def)
  have "standardMultiply [[1, 2], [3, 4]] [[5, 6], [7, 8]] 2 = [[19, 22], [43, 50]]"
    by (simp add: standardMultiply_def upt_rec numeral_2_eq_2 [symmetric])
  with small_sizes_computed_locally [OF a b, of "[[1, 2], [3, 4]]" "[[5, 6], [7, 8]]" 0 1 0] a b
  show ?thesis by simp
qed

text \<open>
  C10. The sequential Strassen multiplication that the coordinator runs as its cross-check
  agrees with the cubic multiplication: for every side \<open>n\<close> that is a power of two
  (from 1 on) and all matrices \<open>A\<close> and \<open>B\<close> of side \<open>n\<close>,
  \<open>strassenMultiply A B n\<close> is the matrix \<open>standardMultiply A B n\<close>, although its fallback
  threshold is 32 and not \<open>MIN_SIZE_THRESHOLD\<close>.
\<close>

theorem strassenMultiply_agrees_with_standardMultiply:
  assumes "n = 2 ^ m" and "mat n A" and "mat n B"
  shows "strassenMultiply A B n = standardMultiply A B n"
  using assms(1) by (simp add: strassenMultiply_pow2)

text \<open>An instance above the threshold 32: side 64, one Strassen step.\<close>

theorem strassenMultiply_agrees_witness:
  "(64 :: int) = 2 ^ 6 \<and> mat 64 (replicate 64 (replicate 64 1))
   \<and> strassenMultiply (replicate 64 (replicate 64 1)) (replicate 64 (replicate 64 1)) 64
     = standardMultiply (replicate 64 (replicate 64 1)) (replicate 64 (replicate 64 1)) 64"
proof -
  have p: "(64 :: int) = 2 ^ 6" by simp
  have m: "mat 64 (replicate 64 (replicate 64 1))"
    by (simp add: mat_def list_all_length)
  from strassenMultiply_agrees_with_standardMultiply [OF p m m] p m show ?thesis
    by blast
qed

section \<open>The distribution decision and the process tree\<close>

text \<open>
  C3 as stated does not hold for all integers: the first child \<open>rank * 7 + 1\<close> is computed
  in \<^verbatim>\<open>int\<close>. For \<open>rank = 306783379\<close> the exact value is \<open>2147483654\<close>, above \<open>INT_MAX\<close>; the
  computed value is negative, hence below \<open>num_procs = 8\<close>, and \<open>shouldDistribute\<close> returns
  true although \<open>rank * 7 + 1 < num_procs\<close> is false.
\<close>

theorem shouldDistribute_overflow_counterexample:
  "shouldDistribute 128 0 8 306783379 \<and> \<not> (306783379 * 7 + 1 < (8 :: int))"
  by (simp add: shouldDistribute_def MIN_SIZE_THRESHOLD_def MAX_TREE_HEIGHT_def int32_def)

text \<open>
  C3, amended. For all \<open>n\<close>, \<open>level\<close>, \<open>num_procs\<close> and \<open>rank\<close> such that \<open>rank * 7 + 1\<close> is an
  \<^verbatim>\<open>int\<close>, in particular for every rank from 0 to 306783377, \<open>shouldDistribute\<close> returns
  true if and only if \<open>n\<close> exceeds \<open>MIN_SIZE_THRESHOLD\<close>, \<open>level\<close> is below
  \<open>MAX_TREE_HEIGHT\<close> and the first child \<open>rank * 7 + 1\<close> is below \<open>num_procs\<close>; so it returns
  false as soon as one of the three conditions fails. For every rank the third condition
  is on the first child as the code computes it.
\<close>

theorem shouldDistribute_iff:
  "(- (2 ^ 31) \<le> rank * 7 + 1 \<and> rank * 7 + 1 < 2 ^ 31 \<longrightarrow>
      (shouldDistribute n level num_procs rank \<longleftrightarrow>
         MIN_SIZE_THRESHOLD < n \<and> level < MAX_TREE_HEIGHT \<and> rank * 7 + 1 < num_procs))
   \<and> (0 \<le> rank \<and> rank \<le> 306783377 \<longrightarrow>
        (shouldDistribute n level num_procs rank \<longleftrightarrow>
           MIN_SIZE_THRESHOLD < n \<and> level < MAX_TREE_HEIGHT \<and> rank * 7 + 1 < num_procs))
   \<and> (shouldDistribute n level num_procs rank \<longleftrightarrow>
        MIN_SIZE_THRESHOLD < n \<and> level < MAX_TREE_HEIGHT \<and> int32 (rank * 7 + 1) < num_procs)"
proof (intro conjI impI)
  show a: "shouldDistribute n level num_procs rank \<longleftrightarrow>
      MIN_SIZE_THRESHOLD < n \<and> level < MAX_TREE_HEIGHT \<and> int32 (rank * 7 + 1) < num_procs"
    by (auto simp: shouldDistribute_def)
  show "shouldDistribute n level num_procs rank \<longleftrightarrow>
      MIN_SIZE_THRESHOLD < n \<and> level < MAX_TREE_HEIGHT \<and> rank * 7 + 1 < num_procs"
    if "- (2 ^ 31) \<le> rank * 7 + 1 \<and> rank * 7 + 1 < 2 ^ 31"
    using that a by (simp add: int32_id)
  show "shouldDistribute n level num_procs rank \<longleftrightarrow>
      MIN_SIZE_THRESHOLD < n \<and> level < MAX_TREE_HEIGHT \<and> rank * 7 + 1 < num_procs"
    if "0 \<le> rank \<and> rank \<le> 306783377"
  proof -
    from that have "- (2 ^ 31) \<le> rank * 7 + 1" "rank * 7 + 1 < 2 ^ 31" by simp_all
    then show ?thesis using a by (simp add: int32_id)
  qed
qed

theorem shouldDistribute_witness:
  "- (2 ^ 31) \<le> (1 :: int) * 7 + 1 \<and> (1 :: int) * 7 + 1 < 2 ^ 31
   \<and> (0 :: int) \<le> 0 \<and> (0 :: int) \<le> 306783377
   \<and> shouldDistribute 128 0 8 0 \<and> \<not> shouldDistribute 64 0 8 0
   \<and> \<not> shouldDistribute 128 5 8 0 \<and> \<not> shouldDistribute 128 0 8 1"
  using shouldDistribute_iff [where n = 128 and level = 0 and num_procs = 8 and rank = 0]
    shouldDistribute_iff [where n = 64 and level = 0 and num_procs = 8 and rank = 0]
    shouldDistribute_iff [where n = 128 and level = 5 and num_procs = 8 and rank = 0]
    shouldDistribute_iff [where n = 128 and level = 0 and num_procs = 8 and rank = 1]
  by (simp add: MIN_SIZE_THRESHOLD_def MAX_TREE_HEIGHT_def int32_def)



section \<open>Levels\<close>

text \<open>
  C4. The level does not stay the same when the decomposition continues inside one
  process. With a single process no task crosses a process boundary: the top-level call
  on side 128 runs at level 0, and its seven recursive kernel calls, all on rank 0 and
  on side 64, run at level 1; for any two matrices the events of the call are its
  invocation at level 0 followed by seven invocations at level 1. With two processes
  the top-level call distributes and offloads product 0 to process 1; the six products
  that it computes itself are again kernel calls on rank 0 at level 1 (and the kernel
  call of process 1 runs at level 2).
\<close>

theorem local_call_runs_at_next_level:
  "map_option snd (strassenMultiplyMPI A B 128 0 1 0)
     = Some [Invoke 0 128 0, Invoke 0 64 1, Invoke 0 64 1, Invoke 0 64 1, Invoke 0 64 1,
             Invoke 0 64 1, Invoke 0 64 1, Invoke 0 64 1]
   \<and> invocationsOf (strassenMultiplyMPI A B 128 0 2 0)
     = Some [Invoke 0 128 0, Invoke 1 64 2, Invoke 0 64 1, Invoke 0 64 1, Invoke 0 64 1,
             Invoke 0 64 1, Invoke 0 64 1, Invoke 0 64 1]"
proof
  have p: "(128 :: int) = 2 ^ 7" by simp
  have big: "MIN_SIZE_THRESHOLD < 128" by (simp add: MIN_SIZE_THRESHOLD_def)
  have rng: "(128 :: int) * 128 \<le> INT_MAX" by (simp add: INT_MAX_def)
  have small: "(64 :: int) \<le> MIN_SIZE_THRESHOLD" "(1 :: int) \<le> 64"
    by (simp_all add: MIN_SIZE_THRESHOLD_def)
  have k: "(128 :: int) sdiv 2 = 64" by (simp add: sdiv2_nonneg)
  show "map_option snd (strassenMultiplyMPI A B 128 0 1 0)
     = Some [Invoke 0 128 0, Invoke 0 64 1, Invoke 0 64 1, Invoke 0 64 1, Invoke 0 64 1,
             Invoke 0 64 1, Invoke 0 64 1, Invoke 0 64 1]"
  proof -
    have nd: "\<not> offloaded 128 0 1 0 i" for i
      by (simp add: offloaded_def shouldDistribute_def int32_def)
    have run: "slotEvents A B 128 0 1 0 i = [Invoke 0 64 1]" for i
      by (simp add: slotEvents_def Let_def nd strassenMultiplyMPI_small [OF small])
    have sends: "slotSends A B 128 0 1 0 i = []" for i
      by (simp add: slotSends_def nd)
    show ?thesis
      by (simp only: strassenMultiplyMPI_events [OF p big rng] option.map snd_conv)
        (simp add: slots_def run sends)
  qed
  show "invocationsOf (strassenMultiplyMPI A B 128 0 2 0)
     = Some [Invoke 0 128 0, Invoke 1 64 2, Invoke 0 64 1, Invoke 0 64 1, Invoke 0 64 1,
             Invoke 0 64 1, Invoke 0 64 1, Invoke 0 64 1]"
  proof -
    have off: "offloaded 128 0 2 0 i \<longleftrightarrow> i < 1" for i
      by (auto simp: offloaded_def shouldDistribute_def int32_def child_rank_def
          MIN_SIZE_THRESHOLD_def MAX_TREE_HEIGHT_def)
    have run: "filter isInvoke (slotEvents A B 128 0 2 0 i)
        = [if i < 1 then Invoke 1 64 2 else Invoke 0 64 1]" if "i \<in> set slots" for i
      using that
      by (auto simp: slotEvents_def Let_def off k strassenMultiplyMPI_small [OF small]
          child_rank_def slots_def)
    have sends: "filter isInvoke (slotSends A B 128 0 2 0 i) = []" for i
      by (simp add: slotSends_def sendTask_def)
    have "filter isInvoke (concat (map (slotEvents A B 128 0 2 0) slots))
        = concat (map (\<lambda>i. [if i < 1 then Invoke 1 64 2 else Invoke 0 64 1]) slots)"
      unfolding filter_concat map_map o_def
      by (rule arg_cong [where f = concat], rule map_cong [OF refl]) (rule run)
    then show ?thesis
      by (simp add: invocationsOf_def strassenMultiplyMPI_events [OF p big rng]
          filter_concat o_def sends slots_def)
  qed
qed

section \<open>Worker, shutdown and start-up\<close>

lemma concat_replicate_replicate:
  "concat (replicate m (replicate n x)) = replicate (m * n) x"
  by (induction m) (simp_all add: replicate_add)

lemma rowMajor_const:
  assumes "\<And>i j. i < nat n \<Longrightarrow> j < nat n \<Longrightarrow> M ! i ! j = c"
  shows "rowMajor M n = replicate (nat n * nat n) c"
proof -
  have row: "map (\<lambda>j. M ! i ! j) [0..<nat n] = replicate (nat n) c" if "i < nat n" for i
  proof -
    have "map (\<lambda>j. M ! i ! j) [0..<nat n] = map (\<lambda>j. c) [0..<nat n]"
      by (rule map_cong [OF refl]) (simp add: assms that)
    then show ?thesis by (simp add: map_replicate_const)
  qed
  have "map (\<lambda>i. map (\<lambda>j. M ! i ! j) [0..<nat n]) [0..<nat n]
      = map (\<lambda>i. replicate (nat n) c) [0..<nat n]"
    by (rule map_cong [OF refl]) (simp add: row)
  also have "\<dots> = replicate (nat n) (replicate (nat n) c)"
    by (simp add: map_replicate_const)
  finally show ?thesis
    by (simp add: rowMajor_def concat_replicate_replicate)
qed

text \<open>
  The loop body of a worker on a task of side 128 for product 0 whose two matrices are
  filled with ones: the kernel runs on side 64 at the received level plus two, and the
  reply is the product \<open>(A11 + A22)(B11 + B22)\<close>, the matrix of side 64 filled with
  \<open>64 * (2 * 2) = 256\<close>.
\<close>

lemma workerTask_ones_128:
  "workerTask rank num_procs parent 128 0 level (replicate 16384 1) (replicate 16384 1) =
     Some (replicate 4096 256,
           [Recv rank parent (Scalar 128), Recv rank parent (Scalar 0),
            Recv rank parent (Scalar level), Recv rank parent (Buffer (replicate 16384 1)),
            Recv rank parent (Buffer (replicate 16384 1)),
            Invoke rank 64 (level + 2),
            Send rank parent (Buffer (replicate 4096 256))])"
proof -
  let ?J = "fromRowMajor (replicate 16384 1) 128"
  let ?ops = "strassenOperands (splitMatrix ?J 64) (splitMatrix ?J 64) 64 0"
  have rng: "(128 :: int) * 128 \<le> INT_MAX" by (simp add: INT_MAX_def)
  have pos: "(0 :: int) \<le> 128" by simp
  have s: "(0 :: int) \<in> set slots" by (simp add: slots_def)
  have k: "(128 :: int) sdiv 2 = 64" by (simp add: sdiv2_nonneg)
  have small: "(64 :: int) \<le> MIN_SIZE_THRESHOLD" "(1 :: int) \<le> 64"
    by (simp_all add: MIN_SIZE_THRESHOLD_def)
  have one: "?J ! i ! j = 1" if "i < 128" "j < 128" for i j
  proof -
    have "i * 128 + j < 16384" using that by simp
    then show ?thesis using that by (simp add: fromRowMajor_def)
  qed
  obtain A11 A12 A21 A22 where sJ: "splitMatrix ?J 64 = (A11, A12, A21, A22)"
    by (cases "splitMatrix ?J 64") auto
  have ops: "fst ?ops ! i ! l = 2" "snd ?ops ! i ! l = 2" if "i < 64" "l < 64" for i l
    using that splitMatrix_nth [OF sJ, of i l]
    by (simp_all add: strassenOperands_def sJ nth_addMatrices one)
  have "standardMultiply (fst ?ops) (snd ?ops) 64 ! i ! j = 256"
    if "i < nat 64" "j < nat 64" for i j
  proof -
    have "(\<Sum>l<64. fst ?ops ! i ! l * snd ?ops ! l ! j) = (\<Sum>l<(64::nat). 4)"
      by (rule sum.cong [OF refl]) (use that ops in simp)
    then show ?thesis using that by (simp add: nth_standardMultiply)
  qed
  then have reply: "rowMajor (standardMultiply (fst ?ops) (snd ?ops) 64) 64 = replicate 4096 256"
    by (simp add: rowMajor_const)
  have sub: "strassenMultiplyMPI (fst ?ops) (snd ?ops) 64 rank num_procs (level + 2)
      = Some (standardMultiply (fst ?ops) (snd ?ops) 64, [Invoke rank 64 (level + 2)])"
    by (rule strassenMultiplyMPI_small [OF small])
  from workerTask_unfold [OF rng pos s, of "replicate 16384 1" "replicate 16384 1"
      rank num_procs level _ _ parent, unfolded k, OF sub]
  show ?thesis unfolding reply by simp
qed

text \<open>
  C6. The worker does not invoke the kernel at the received level plus one. Worker 1 of
  two processes receives from process 0 a task of side 128 for product 0 with level 0,
  both matrices filled with ones, and then the shutdown signal. It receives the five
  messages of the task in order, enters \<open>strassenMultiplyMPI\<close> on side 64 at level 2,
  sends one reply to process 0, the product \<open>(A11 + A22)(B11 + B22)\<close> of side 64, whose
  entries are all 256, and leaves its loop on the signal.
\<close>

theorem worker_enters_kernel_two_levels_up:
  "workerProcess 1 2
      [(0, Scalar 128), (0, Scalar 0), (0, Scalar 0), (0, Buffer (replicate 16384 1)),
       (0, Buffer (replicate 16384 1)), (0, Scalar 0)]
   = (Exited,
      [Recv 1 0 (Scalar 128), Recv 1 0 (Scalar 0), Recv 1 0 (Scalar 0),
       Recv 1 0 (Buffer (replicate 16384 1)), Recv 1 0 (Buffer (replicate 16384 1)),
       Invoke 1 64 2,
       Send 1 0 (Buffer (replicate 4096 256)),
       Recv 1 0 (Scalar 0)])"
proof -
  have t: "recvTask 1 0 128 [(0, Scalar 0), (0, Scalar 0), (0, Buffer (replicate 16384 1)),
       (0, Buffer (replicate 16384 1)), (0, Scalar 0)]
     = Inr ((0, 0, replicate 16384 1, replicate 16384 1), [(0, Scalar 0)])"
    by (rule recvTask_consecutive) (simp_all add: INT_MAX_def)
  have s: "(0 :: int) \<in> set slots" by (simp add: slots_def)
  show ?thesis
    by (simp add: workerProcess_task [OF _ s t workerTask_ones_128] workerProcess_sentinel)
qed



text \<open>
  C9. If the size given on the command line is not a power of two or is less than 2,
  every process returns from \<open>main\<close> without any event, so no message of the protocol is
  sent or received in that run, and the coordinator reports the error.
\<close>

theorem bad_size_exits_before_protocol:
  assumes "(\<nexists>m. n = 2 ^ m) \<or> n < 2"
  shows "main rank num_procs (Some n) A B inbox
           = (Exited, if rank = 0 then [SizeError] else [], [])"
  using assms by (simp add: main_def isPowerOfTwo_iff)

theorem bad_size_witness:
  "(\<nexists>m. (6 :: int) = 2 ^ m)
   \<and> main 0 4 (Some 6) [] [] [] = (Exited, [SizeError], [])
   \<and> main 3 4 (Some 6) [] [] [(0, Scalar 0)] = (Exited, [], [])"
proof -
  have "\<not> isPowerOfTwo 6" by (simp add: isPowerOfTwo_def)
  then have h: "(\<nexists>m. (6 :: int) = 2 ^ m) \<or> (6 :: int) < 2"
    by (simp add: isPowerOfTwo_iff)
  from bad_size_exits_before_protocol [OF h, of 0 4 "[]" "[]" "[]"]
    bad_size_exits_before_protocol [OF h, of 3 4 "[]" "[]" "[(0, Scalar 0)]"] h
  show ?thesis by simp
qed

end
